theory Spec2Isabelle
  imports Complex_Main
begin

section \<open>JSON values\<close>

text \<open>
  The values that reach the handlers of \<^verbatim>\<open>server.js\<close>: what the body parsers leave in
  \<^verbatim>\<open>req.body\<close>, the numbers the handlers compute, and the \<^verbatim>\<open>Date\<close> objects they
  create. A finite number is a rational (every double is one; the handlers add 1 to a
  length and compare numbers, nothing else), and the two infinities are values of their
  own: \<^verbatim>\<open>JSON.parse\<close> gives \<^verbatim>\<open>Infinity\<close> for a literal such as \<^verbatim>\<open>1e999\<close>, and
  \<^verbatim>\<open>parseInt\<close> gives it for a numeral that is too long. A \<^verbatim>\<open>Date\<close> is its time value
  in milliseconds. A parsed JSON object is the list of its entries; its keys are distinct,
  and were one repeated the last entry would count.
\<close>

datatype jval =
    JNull
  | JBool bool
  | JNum rat
  | JInfinity
  | JMinusInfinity
  | JStr string
  | JDate int
  | JArr "jval list"
  | JObj "(string \<times> jval) list"

text \<open>
  The objects the handlers build and store are opaque mappings of string keys to values.
\<close>

type_synonym obj = "string \<rightharpoonup> jval"

subsection \<open>Decimal numerals\<close>

text \<open>
  The decimal numeral of a number: the property key of an array index, and what a client
  writes into a path to name an \<^verbatim>\<open>id\<close>.
\<close>

definition digit_char :: "nat \<Rightarrow> char" where
  "digit_char d = char_of (48 + d)"

function decimal :: "nat \<Rightarrow> string" where
  "decimal n = (if n < 10 then [digit_char n] else decimal (n div 10) @ [digit_char (n mod 10)])"
  by pat_completeness auto
termination
  by (relation "measure (\<lambda>n. n)") auto

declare decimal.simps [simp del]

definition decimal_int :: "int \<Rightarrow> string" where
  "decimal_int k = (if k < 0 then CHR ''-'' # decimal (nat (- k)) else decimal (nat k))"

subsection \<open>\<^verbatim>\<open>parseInt\<close>\<close>

text \<open>
  A path parameter is a JavaScript string: a list of UTF-16 code units. \<open>units\<close> gives
  the code units of a string of characters below 256.
\<close>

type_synonym ustring = "nat list"

definition units :: "string \<Rightarrow> ustring" where
  "units s = map of_char s"

text \<open>
  The Number nearest to a natural number: the number itself below \<open>2^53\<close>, otherwise its
  53 leading bits rounded to nearest, ties to even, and \<open>None\<close> (\<^verbatim>\<open>Infinity\<close>) when the
  rounded value reaches \<open>2^1024\<close>.
\<close>

function bit_length :: "nat \<Rightarrow> nat" where
  "bit_length n = (if n = 0 then 0 else Suc (bit_length (n div 2)))"
  by pat_completeness auto
termination
  by (relation "measure (\<lambda>n. n)") auto

declare bit_length.simps [simp del]

definition to_double :: "nat \<Rightarrow> nat option" where
  "to_double n =
     (if n < 2 ^ 53 then Some n
      else let e = bit_length n - 53;
               q = n div 2 ^ e;
               r = n mod 2 ^ e;
               m = (if 2 ^ e < 2 * r \<or> (2 * r = 2 ^ e \<and> odd q) then q + 1 else q) * 2 ^ e
           in if m < 2 ^ 1024 then Some m else None)"

definition number :: "bool \<Rightarrow> nat \<Rightarrow> jval" where
  "number neg n =
     (case to_double n of
        None \<Rightarrow> if neg then JMinusInfinity else JInfinity
      | Some m \<Rightarrow> JNum (if neg then - of_nat m else of_nat m))"

text \<open>
  \<^verbatim>\<open>parseInt(string)\<close> with no radix argument: leading white space (the white space and
  line terminator code points of ECMAScript) is skipped, one sign is read, a \<^verbatim>\<open>0x\<close> or
  \<^verbatim>\<open>0X\<close> prefix selects radix 16 (radix 10 otherwise), and the longest prefix of digits
  of that radix is the numeral, whatever follows it; its value is rounded to a Number. With
  no digit the result is \<^verbatim>\<open>NaN\<close>, here \<open>None\<close>.
\<close>

definition is_space :: "nat \<Rightarrow> bool" where
  "is_space u =
     (u \<in> {9, 10, 11, 12, 13, 32, 160, 5760, 8232, 8233, 8239, 8287, 12288, 65279} \<or>
      (8192 \<le> u \<and> u \<le> 8202))"

definition digit_val :: "nat \<Rightarrow> nat" where
  "digit_val u =
     (if 48 \<le> u \<and> u \<le> 57 then u - 48
      else if 97 \<le> u \<and> u \<le> 122 then u - 87
      else if 65 \<le> u \<and> u \<le> 90 then u - 55
      else 36)"

definition strip_sign :: "ustring \<Rightarrow> bool \<times> ustring" where
  "strip_sign t =
     (case t of
        [] \<Rightarrow> (False, t)
      | c # r \<Rightarrow> if c = 45 then (True, r) else if c = 43 then (False, r) else (False, t))"

definition strip_radix :: "ustring \<Rightarrow> nat \<times> ustring" where
  "strip_radix u =
     (case u of
        a # b # r \<Rightarrow> if a = 48 \<and> (b = 120 \<or> b = 88) then (16, r) else (10, u)
      | _ \<Rightarrow> (10, u))"

definition digits_value :: "nat \<Rightarrow> ustring \<Rightarrow> nat" where
  "digits_value radix ds = foldl (\<lambda>a c. a * radix + digit_val c) 0 ds"

definition parseInt :: "ustring \<Rightarrow> jval option" where
  "parseInt s =
     (let (neg, u) = strip_sign (dropWhile is_space s);
          (radix, w) = strip_radix u;
          ds = takeWhile (\<lambda>c. digit_val c < radix) w
      in if ds = [] then None else Some (number neg (digits_value radix ds)))"

subsection \<open>Object spread\<close>

text \<open>
  \<^verbatim>\<open>{...v}\<close> copies the own enumerable properties of \<^verbatim>\<open>v\<close>: the entries of an object,
  the elements of an array under their indices, the characters of a string under theirs,
  and nothing for \<^verbatim>\<open>null\<close>, \<^verbatim>\<open>undefined\<close>, a boolean, a number or a \<^verbatim>\<open>Date\<close>.
\<close>

definition indexed :: "jval list \<Rightarrow> (string \<times> jval) list" where
  "indexed xs = zip (map decimal [0..<length xs]) xs"

fun spread :: "jval \<Rightarrow> (string \<times> jval) list" where
  "spread (JObj kvs) = kvs"
| "spread (JArr xs) = indexed xs"
| "spread (JStr s) = indexed (map (\<lambda>c. JStr [c]) s)"
| "spread _ = []"

text \<open>Defining properties one after the other: a later definition of a key replaces an earlier one.\<close>

definition define_property :: "string \<times> jval \<Rightarrow> obj \<Rightarrow> obj" where
  "define_property kv m = m(fst kv \<mapsto> snd kv)"

definition assign :: "obj \<Rightarrow> (string \<times> jval) list \<Rightarrow> obj" where
  "assign m kvs = fold define_property kvs m"

text \<open>
  The object literal of both POST handlers,
  \<^verbatim>\<open>{ id: store.length + 1, ...req.body, createdAt: new Date() }\<close>.
\<close>

definition new_record :: "nat \<Rightarrow> jval \<Rightarrow> int \<Rightarrow> obj" where
  "new_record len b now = (assign [''id'' \<mapsto> JNum (of_nat len + 1)] (spread b))(''createdAt'' \<mapsto> JDate now)"

section \<open>Requests, responses and the state of the process\<close>

text \<open>
  The routes of \<^verbatim>\<open>server.js\<close>, the two with \<^verbatim>\<open>:id\<close> together with the decoded
  \<^verbatim>\<open>req.params.id\<close> (never empty: \<^verbatim>\<open>GET /customers/\<close> is the index route). Two more
  cases are requests that pass the middleware and that Express answers itself:
  \<open>Undecodable\<close>, a path that matches a route with \<^verbatim>\<open>:id\<close> whose parameter cannot be
  percent-decoded, answered 400, and \<open>NoRoute\<close>, a request that matches no route,
  answered 404.
\<close>

datatype route =
    Root
  | CustomersIndex
  | CustomersCreate
  | CustomersById ustring
  | ProductsIndex
  | ProductsCreate
  | ProductsById ustring
  | Undecodable
  | NoRoute

text \<open>
  Where a request ends up is decided by Express and by the middleware mounted before the
  timing middleware (lines 57 to 60: the metrics bundle, which serves \<^verbatim>\<open>/metrics\<close>
  itself, CORS, which answers a preflight, and the body parsers, which reject a body they
  cannot parse): it is an input of the model. \<open>Upstream st\<close> is a request answered with
  status \<open>st\<close> by one of those, so that the timing middleware and the routes never see
  it; \<open>Routed r\<close> is a request that reaches them, \<open>r\<close> being the route Express selects.
\<close>

datatype disposition =
    Upstream nat
  | Routed route

text \<open>
  \<open>req_method\<close>, \<open>path\<close> and \<open>body\<close> are \<^verbatim>\<open>req.method\<close>, \<^verbatim>\<open>req.path\<close> and
  \<^verbatim>\<open>req.body\<close>; \<open>start\<close> and \<open>finish\<close> are the two readings of \<^verbatim>\<open>Date.now()\<close> of
  the timing middleware, \<open>clock\<close> is the \<^verbatim>\<open>new Date()\<close> of a POST handler.

  \<open>validators_match\<close> says whether the request is a conditional one whose validators
  match the response the handler sends: it carries an \<^verbatim>\<open>If-None-Match\<close> that names the
  \<^verbatim>\<open>ETag\<close> Express computes for the body (\<^verbatim>\<open>*\<close> names every one), and no
  \<^verbatim>\<open>Cache-Control: no-cache\<close>.

  \<open>fault\<close> is an exception raised inside the handler: with \<open>Some (i, msg)\<close> the
  statement that would produce the handler's effect number \<open>i\<close> (counted from 0, in
  program order) throws an error with message \<open>msg\<close> instead, the effects before it having
  taken place. Nothing in the handlers throws on an ordinary request; \<^verbatim>\<open>res.json\<close> on a
  value nested too deeply to be serialised is one statement that does.
\<close>

record request =
  req_method :: string
  path :: string
  target :: disposition
  body :: jval
  validators_match :: bool
  fault :: "(nat \<times> string) option"
  start :: int
  clock :: int
  finish :: int

datatype payload =
    Json obj
  | Json_array "obj list"
  | Other
  | No_body

text \<open>
  The two stores and the four instruments of \<^verbatim>\<open>server.js\<close>. A counter is its value under
  each label tuple; the histogram is the samples observed under each label tuple, so its
  sample count is their number.
\<close>

record state =
  customers :: "obj list"
  products :: "obj list"
  customerOperationsCounter :: "string \<Rightarrow> nat"
  productOperationsCounter :: "string \<Rightarrow> nat"
  errorCounter :: "string \<times> string \<Rightarrow> nat"
  httpRequestDurationMicroseconds :: "string \<times> string \<times> nat \<Rightarrow> int list"

definition init :: state where
  "init = \<lparr> customers = [], products = [],
            customerOperationsCounter = (\<lambda>_. 0), productOperationsCounter = (\<lambda>_. 0),
            errorCounter = (\<lambda>_. 0), httpRequestDurationMicroseconds = (\<lambda>_. []) \<rparr>"

definition sample_count :: "state \<Rightarrow> string \<times> string \<times> nat \<Rightarrow> nat" where
  "sample_count s l = length (httpRequestDurationMicroseconds s l)"

subsection \<open>Effects\<close>

text \<open>
  A handler is the list of its effects in program order, so that what happens before the
  response is sent can be told from what happens after.
\<close>

datatype action =
    PushCustomer obj
  | PushProduct obj
  | IncCustomerOp string
  | IncProductOp string
  | IncError string string
  | Send nat payload
  | Observe string string nat int

fun exec :: "action \<Rightarrow> state \<Rightarrow> state" where
  "exec (PushCustomer c) s = s\<lparr>customers := customers s @ [c]\<rparr>"
| "exec (PushProduct p) s = s\<lparr>products := products s @ [p]\<rparr>"
| "exec (IncCustomerOp l) s =
     s\<lparr>customerOperationsCounter := (customerOperationsCounter s)(l := customerOperationsCounter s l + 1)\<rparr>"
| "exec (IncProductOp l) s =
     s\<lparr>productOperationsCounter := (productOperationsCounter s)(l := productOperationsCounter s l + 1)\<rparr>"
| "exec (IncError r m) s =
     s\<lparr>errorCounter := (errorCounter s)((r, m) := errorCounter s (r, m) + 1)\<rparr>"
| "exec (Send st p) s = s"
| "exec (Observe m p st d) s =
     s\<lparr>httpRequestDurationMicroseconds :=
         (httpRequestDurationMicroseconds s)((m, p, st) := httpRequestDurationMicroseconds s (m, p, st) @ [d])\<rparr>"

definition perform :: "action list \<Rightarrow> state \<Rightarrow> state" where
  "perform acts s = fold exec acts s"


fun is_Observe :: "action \<Rightarrow> bool" where
  "is_Observe (Observe m p st d) = True"
| "is_Observe _ = False"


text \<open>\<^verbatim>\<open>res.statusCode\<close> when the response finishes: 200 unless a status was set.\<close>

definition statusCode :: "action list \<Rightarrow> nat" where
  "statusCode acts = foldl (\<lambda>st a. case a of Send st' p \<Rightarrow> st' | _ \<Rightarrow> st) 200 acts"

definition sent :: "action list \<Rightarrow> payload" where
  "sent acts = foldl (\<lambda>b a. case a of Send st p \<Rightarrow> p | _ \<Rightarrow> b) Other acts"

subsection \<open>Sending a response, and exceptions\<close>

text \<open>
  \<^verbatim>\<open>res.status(st).json(b)\<close> in a handler registered with \<^verbatim>\<open>app.get\<close>, where
  \<^verbatim>\<open>req.method\<close> is GET or HEAD: when the status is a 2xx and the request's validators
  match, Express answers 304 instead; a 304, and any answer to a HEAD request, has no
  body. In a handler registered with \<^verbatim>\<open>app.post\<close> the method is POST, the response is never
  replaced by a 304 and the body is sent: there the effect is \<open>Send st b\<close> itself.
\<close>

definition res_json :: "request \<Rightarrow> nat \<Rightarrow> payload \<Rightarrow> action" where
  "res_json req st b =
     (let st' = (if 200 \<le> st \<and> st < 300 \<and> validators_match req then 304 else st)
      in Send st' (if st' = 304 \<or> req_method req = ''HEAD'' then No_body else b))"

text \<open>
  \<^verbatim>\<open>try { block } catch (error) { handler }\<close> under the request's fault: the effects of
  the block up to the statement that throws, then those of the handler, which is given
  \<^verbatim>\<open>error.message\<close>.
\<close>

definition attempt :: "(nat \<times> string) option \<Rightarrow> action list \<Rightarrow> (string \<Rightarrow> action list) \<Rightarrow> action list" where
  "attempt f block handler =
     (case f of
        None \<Rightarrow> block
      | Some (i, msg) \<Rightarrow> if i < length block then take i block @ handler msg else block)"

text \<open>
  An exception that no \<^verbatim>\<open>catch\<close> of \<^verbatim>\<open>server.js\<close> handles reaches the error handler of
  Express, which answers 500.
\<close>

definition uncaught :: "string \<Rightarrow> action list" where
  "uncaught msg = [Send 500 Other]"

definition error_body :: "string \<Rightarrow> payload" where
  "error_body msg = Json [''error'' \<mapsto> JStr msg]"

section \<open>The route handlers\<close>

text \<open>
  The two POST handlers and the two lookups run inside \<^verbatim>\<open>try\<close> blocks (lines 87 to 100,
  104 to 117, 127 to 140, 144 to 157) whose \<^verbatim>\<open>catch\<close> counts an error and answers 500
  with \<^verbatim>\<open>error.message\<close>. The two index handlers and the root handler have none.
\<close>

definition get_customers :: "state \<Rightarrow> request \<Rightarrow> action list" where
  "get_customers s req =
     attempt (fault req)
       [IncCustomerOp ''get_all'', res_json req 200 (Json_array (customers s))]
       uncaught"

definition post_customers :: "state \<Rightarrow> request \<Rightarrow> action list" where
  "post_customers s req =
     (let customer = new_record (length (customers s)) (body req) (clock req)
      in attempt (fault req)
           [PushCustomer customer, IncCustomerOp ''create'', Send 201 (Json customer)]
           (\<lambda>msg. [IncError ''/customers'' ''POST'', Send 500 (error_body msg)]))"

text \<open>
  \<^verbatim>\<open>store.find(c => c.id === parseInt(req.params.id))\<close>: the first record whose
  \<^verbatim>\<open>id\<close> is the parsed number; \<^verbatim>\<open>NaN\<close> is equal to nothing.
\<close>

definition find_by_id :: "obj list \<Rightarrow> ustring \<Rightarrow> obj option" where
  "find_by_id store p =
     (case parseInt p of
        None \<Rightarrow> None
      | Some n \<Rightarrow> List.find (\<lambda>c. c ''id'' = Some n) store)"

definition get_customer_by_id :: "state \<Rightarrow> request \<Rightarrow> ustring \<Rightarrow> action list" where
  "get_customer_by_id s req p =
     attempt (fault req)
       (case find_by_id (customers s) p of
          None \<Rightarrow> [IncError ''/customers/:id'' ''GET'',
                   res_json req 404 (Json [''message'' \<mapsto> JStr ''Customer not found''])]
        | Some customer \<Rightarrow> [IncCustomerOp ''get_by_id'', res_json req 200 (Json customer)])
       (\<lambda>msg. [IncError ''/customers/:id'' ''GET'', res_json req 500 (error_body msg)])"

definition get_products :: "state \<Rightarrow> request \<Rightarrow> action list" where
  "get_products s req =
     attempt (fault req)
       [IncProductOp ''get_all'', res_json req 200 (Json_array (products s))]
       uncaught"

definition post_products :: "state \<Rightarrow> request \<Rightarrow> action list" where
  "post_products s req =
     (let product = new_record (length (products s)) (body req) (clock req)
      in attempt (fault req)
           [PushProduct product, IncProductOp ''create'', Send 201 (Json product)]
           (\<lambda>msg. [IncError ''/products'' ''POST'', Send 500 (error_body msg)]))"

definition get_product_by_id :: "state \<Rightarrow> request \<Rightarrow> ustring \<Rightarrow> action list" where
  "get_product_by_id s req p =
     attempt (fault req)
       (case find_by_id (products s) p of
          None \<Rightarrow> [IncError ''/products/:id'' ''GET'',
                   res_json req 404 (Json [''message'' \<mapsto> JStr ''Product not found''])]
        | Some product \<Rightarrow> [IncProductOp ''get_by_id'', res_json req 200 (Json product)])
       (\<lambda>msg. [IncError ''/products/:id'' ''GET'', res_json req 500 (error_body msg)])"

definition entry :: "string \<Rightarrow> string list \<Rightarrow> jval" where
  "entry p ms = JObj [(''path'', JStr p), (''methods'', JArr (map JStr ms))]"

definition get_root :: "request \<Rightarrow> action list" where
  "get_root req =
     attempt (fault req)
       [res_json req 200 (Json [''message'' \<mapsto> JStr ''API Server is running'',
          ''endpoints'' \<mapsto> JArr
            [entry ''/customers'' [''GET'', ''POST''],
             entry ''/customers/:id'' [''GET''],
             entry ''/products'' [''GET'', ''POST''],
             entry ''/products/:id'' [''GET''],
             JObj [(''path'', JStr ''/metrics''), (''methods'', JArr [JStr ''GET'']),
                   (''description'', JStr ''Prometheus metrics'')]]])]
       uncaught"

fun routes :: "state \<Rightarrow> request \<Rightarrow> route \<Rightarrow> action list" where
  "routes s req Root = get_root req"
| "routes s req CustomersIndex = get_customers s req"
| "routes s req CustomersCreate = post_customers s req"
| "routes s req (CustomersById p) = get_customer_by_id s req p"
| "routes s req ProductsIndex = get_products s req"
| "routes s req ProductsCreate = post_products s req"
| "routes s req (ProductsById p) = get_product_by_id s req p"
| "routes s req Undecodable = [Send 400 Other]"
| "routes s req NoRoute = [Send 404 Other]"

section \<open>The timing middleware and the application\<close>

text \<open>
  The middleware of lines 63 to 74: it calls \<^verbatim>\<open>next()\<close>, and when the response has been
  sent its \<^verbatim>\<open>finish\<close> listener observes the duration under
  \<^verbatim>\<open>(req.method, req.path, res.statusCode)\<close>. The requests of the model are completed
  ones: the response is sent and \<^verbatim>\<open>finish\<close> is emitted, once (a connection that is
  aborted before that emits no \<^verbatim>\<open>finish\<close>, and nothing is observed).
\<close>

definition timing :: "state \<Rightarrow> request \<Rightarrow> route \<Rightarrow> action list" where
  "timing s req r =
     (let acts = routes s req r
      in acts @ [Observe (req_method req) (path req) (statusCode acts) (finish req - start req)])"

definition app :: "state \<Rightarrow> request \<Rightarrow> action list" where
  "app s req =
     (case target req of
        Upstream st \<Rightarrow> [Send st Other]
      | Routed r \<Rightarrow> timing s req r)"

definition serve :: "state \<Rightarrow> request \<Rightarrow> state" where
  "serve s req = perform (app s req) s"

definition status :: "state \<Rightarrow> request \<Rightarrow> nat" where
  "status s req = statusCode (app s req)"

definition reply :: "state \<Rightarrow> request \<Rightarrow> payload" where
  "reply s req = sent (app s req)"

text \<open>Requests served one after the other, and their responses in call order.\<close>

fun run :: "state \<Rightarrow> request list \<Rightarrow> state" where
  "run s [] = s"
| "run s (req # reqs) = run (serve s req) reqs"

fun replies :: "state \<Rightarrow> request list \<Rightarrow> (nat \<times> payload) list" where
  "replies s [] = []"
| "replies s (req # reqs) = (status s req, reply s req) # replies (serve s req) reqs"

section \<open>Vocabulary of the properties\<close>

text \<open>The \<^verbatim>\<open>id\<close> of a returned record and the \<^verbatim>\<open>id\<close>s of a store, in insertion order.\<close>

definition returned_id :: "payload \<Rightarrow> jval option" where
  "returned_id b = (case b of Json r \<Rightarrow> r ''id'' | _ \<Rightarrow> None)"

definition returned_ids :: "(nat \<times> payload) list \<Rightarrow> jval option list" where
  "returned_ids rs = map (\<lambda>r. returned_id (snd r)) rs"

definition statuses :: "(nat \<times> payload) list \<Rightarrow> nat list" where
  "statuses rs = map fst rs"

definition ids :: "obj list \<Rightarrow> jval option list" where
  "ids store = map (\<lambda>c. c ''id'') store"

text \<open>The numbers 1 to \<open>n\<close> as \<^verbatim>\<open>id\<close>s.\<close>

definition first_ids :: "nat \<Rightarrow> jval option list" where
  "first_ids n = map (\<lambda>i. Some (JNum (of_nat i))) [1..<Suc n]"

definition id_less :: "jval option \<Rightarrow> jval option \<Rightarrow> bool" where
  "id_less a b = (case (a, b) of (Some (JNum x), Some (JNum y)) \<Rightarrow> x < y | _ \<Rightarrow> False)"

definition increasing :: "jval option list \<Rightarrow> bool" where
  "increasing xs = sorted_wrt id_less xs"

text \<open>A request body that brings an \<^verbatim>\<open>id\<close> key of its own into the object literal.\<close>

definition has_id_key :: "jval \<Rightarrow> bool" where
  "has_id_key b = (''id'' \<in> fst ` set (spread b))"

text \<open>A POST whose body brings no \<^verbatim>\<open>id\<close> key, or any request that is not a POST.\<close>

definition server_numbered :: "request \<Rightarrow> bool" where
  "server_numbered req =
     (if target req = Routed CustomersCreate \<or> target req = Routed ProductsCreate
      then \<not> has_id_key (body req) else True)"

definition customers_post :: "request \<Rightarrow> bool" where
  "customers_post req = (target req = Routed CustomersCreate)"

text \<open>A request in whose handler nothing throws.\<close>

definition unfailing :: "request \<Rightarrow> bool" where
  "unfailing req = (fault req = None)"

fun customer_operation :: "disposition \<Rightarrow> bool" where
  "customer_operation (Routed CustomersIndex) = True"
| "customer_operation (Routed CustomersCreate) = True"
| "customer_operation (Routed (CustomersById p)) = True"
| "customer_operation _ = False"

fun product_operation :: "disposition \<Rightarrow> bool" where
  "product_operation (Routed ProductsIndex) = True"
| "product_operation (Routed ProductsCreate) = True"
| "product_operation (Routed (ProductsById p)) = True"
| "product_operation _ = False"

definition numbered :: "state \<Rightarrow> bool" where
  "numbered s =
     (ids (customers s) = first_ids (length (customers s)) \<and>
      ids (products s) = first_ids (length (products s)))"

text \<open>Effects that leave the product side, respectively the customer side, alone.\<close>

fun customer_side :: "action \<Rightarrow> bool" where
  "customer_side (PushProduct p) = False"
| "customer_side (IncProductOp l) = False"
| "customer_side (IncError r m) = (r = ''/customers'' \<or> r = ''/customers/:id'')"
| "customer_side _ = True"

fun product_side :: "action \<Rightarrow> bool" where
  "product_side (PushCustomer c) = False"
| "product_side (IncCustomerOp l) = False"
| "product_side (IncError r m) = (r = ''/products'' \<or> r = ''/products/:id'')"
| "product_side _ = True"

text \<open>A decimal digit, and an integer that is a Number.\<close>

definition is_digit :: "nat \<Rightarrow> bool" where
  "is_digit u = (48 \<le> u \<and> u \<le> 57)"

definition exact :: "int \<Rightarrow> bool" where
  "exact k = (to_double (nat \<bar>k\<bar>) = Some (nat \<bar>k\<bar>))"

text \<open>
  What may follow a decimal numeral without being read as part of it: nothing, or a code
  unit that is neither a digit nor \<^verbatim>\<open>x\<close> or \<^verbatim>\<open>X\<close>.
\<close>

definition stops :: "ustring \<Rightarrow> bool" where
  "stops rest = (case rest of [] \<Rightarrow> True | u # r \<Rightarrow> \<not> is_digit u \<and> u \<noteq> 120 \<and> u \<noteq> 88)"

text \<open>Concrete requests, for the examples: unconditional, and nothing throws.\<close>

definition sample :: "string \<Rightarrow> string \<Rightarrow> disposition \<Rightarrow> jval \<Rightarrow> request" where
  "sample m p t b =
     \<lparr>req_method = m, path = p, target = t, body = b, validators_match = False, fault = None,
      start = 1000, clock = 1001, finish = 1003\<rparr>"

definition post_customer :: "jval \<Rightarrow> request" where
  "post_customer b = sample ''POST'' ''/customers'' (Routed CustomersCreate) b"

definition post_product :: "jval \<Rightarrow> request" where
  "post_product b = sample ''POST'' ''/products'' (Routed ProductsCreate) b"

definition get_customer :: "string \<Rightarrow> request" where
  "get_customer p = sample ''GET'' (''/customers/'' @ p) (Routed (CustomersById (units p))) JNull"

definition get_metrics :: request where
  "get_metrics = sample ''GET'' ''/metrics'' (Upstream 200) JNull"

definition get_unknown :: request where
  "get_unknown = sample ''GET'' ''/orders'' (Routed NoRoute) JNull"

definition get_undecodable :: request where
  "get_undecodable = sample ''GET'' ''/customers/%A0'' (Routed Undecodable) JNull"

definition named :: "string \<Rightarrow> jval" where
  "named n = JObj [(''name'', JStr n)]"

section \<open>Basic facts\<close>

lemmas handler_defs = get_customers_def post_customers_def get_customer_by_id_def
  get_products_def post_products_def get_product_by_id_def get_root_def

lemmas app_defs = app_def timing_def serve_def status_def reply_def

lemmas sample_defs = sample_def post_customer_def post_product_def get_customer_def
  get_metrics_def get_unknown_def get_undecodable_def named_def

lemmas parse_defs = parseInt_def strip_sign_def strip_radix_def is_space_def digit_val_def
  digits_value_def units_def number_def to_double_def

subsection \<open>Spread and the object literal\<close>

lemma assign_apply:
  "assign m kvs k = (case map_of (rev kvs) k of Some v \<Rightarrow> Some v | None \<Rightarrow> m k)"
  unfolding assign_def
proof (induction kvs arbitrary: m)
  case Nil
  show ?case by simp
next
  case (Cons kv kvs)
  have "fold define_property (kv # kvs) m k =
          (case map_of (rev kvs) k of Some v \<Rightarrow> Some v | None \<Rightarrow> define_property kv m k)"
    by (simp add: Cons.IH)
  also have "\<dots> = (case map_of (rev (kv # kvs)) k of Some v \<Rightarrow> Some v | None \<Rightarrow> m k)"
    by (cases kv) (simp add: define_property_def map_add_def split: option.splits)
  finally show ?case .
qed

lemma new_record_createdAt: "new_record len b now ''createdAt'' = Some (JDate now)"
  by (simp add: new_record_def)

lemma new_record_apply:
  "new_record len b now k =
     (if k = ''createdAt'' then Some (JDate now)
      else case map_of (rev (spread b)) k of
             Some v \<Rightarrow> Some v
           | None \<Rightarrow> if k = ''id'' then Some (JNum (of_nat len + 1)) else None)"
  by (simp add: new_record_def assign_apply split: option.splits)

lemma map_of_rev_None: "map_of (rev kvs) k = None \<longleftrightarrow> k \<notin> fst ` set kvs"
  by (simp add: map_of_eq_None_iff)

lemma new_record_id_server:
  "\<not> has_id_key b \<Longrightarrow> new_record len b now ''id'' = Some (JNum (of_nat len + 1))"
  by (simp add: new_record_apply has_id_key_def map_of_rev_None[symmetric] del: map_of_eq_None_iff)

subsection \<open>What \<^verbatim>\<open>parseInt\<close> reads\<close>

lemma of_char_digit_char: "d < 10 \<Longrightarrow> (of_char (digit_char d) :: nat) = 48 + d"
  by (simp add: digit_char_def)

lemma units_append: "units (xs @ ys) = units xs @ units ys"
  by (simp add: units_def)

lemma units_digit_char: "units [digit_char d] = [of_char (digit_char d)]"
  by (simp add: units_def)

lemma decimal_digits: "\<forall>u\<in>set (units (decimal n)). is_digit u"
proof (induction n rule: decimal.induct)
  case (1 n)
  show ?case
  proof (cases "n < 10")
    case True
    then show ?thesis
      by (subst decimal.simps) (simp add: units_def is_digit_def of_char_digit_char)
  next
    case False
    with 1 show ?thesis
      by (subst decimal.simps) (simp add: units_append units_digit_char is_digit_def of_char_digit_char)
  qed
qed

lemma decimal_nonempty: "units (decimal n) \<noteq> []"
  by (subst decimal.simps) (simp add: units_def)

lemma digits_value_snoc: "digits_value r (ds @ [c]) = digits_value r ds * r + digit_val c"
  by (simp add: digits_value_def)

lemma digit_val_digit_char: "d < 10 \<Longrightarrow> digit_val (of_char (digit_char d)) = d"
  by (simp add: digit_val_def of_char_digit_char)

lemma digits_value_decimal: "digits_value 10 (units (decimal n)) = n"
proof (induction n rule: decimal.induct)
  case (1 n)
  show ?case
  proof (cases "n < 10")
    case True
    then show ?thesis
      by (subst decimal.simps) (simp add: units_def digits_value_def digit_val_digit_char)
  next
    case False
    with 1 have "digits_value 10 (units (decimal (n div 10))) = n div 10" by simp
    with False show ?thesis
      by (subst decimal.simps)
         (simp add: units_append units_digit_char digits_value_snoc digit_val_digit_char)
  qed
qed

lemma digit_val_less_10: "digit_val u < 10 \<longleftrightarrow> is_digit u"
  by (auto simp: is_digit_def digit_val_def)

lemma is_digit_not_space: "is_digit u \<Longrightarrow> \<not> is_space u"
  by (auto simp: is_digit_def is_space_def)

lemma is_digit_not_sign: "is_digit u \<Longrightarrow> u \<noteq> 45 \<and> u \<noteq> 43 \<and> u \<noteq> 120 \<and> u \<noteq> 88"
  by (auto simp: is_digit_def)

lemma takeWhile_stops: "stops rest \<Longrightarrow> takeWhile (\<lambda>c. digit_val c < 10) rest = []"
  by (cases rest) (simp_all add: stops_def digit_val_less_10)

lemma parse_digits:
  assumes ds: "ds \<noteq> []" "\<forall>u\<in>set ds. is_digit u" and rest: "stops rest"
  shows "strip_sign (dropWhile is_space (ds @ rest)) = (False, ds @ rest)"
    and "strip_radix (ds @ rest) = (10, ds @ rest)"
    and "takeWhile (\<lambda>c. digit_val c < 10) (ds @ rest) = ds"
proof -
  obtain c r where cr: "ds = c # r" using ds(1) by (cases ds) auto
  with ds(2) have c: "is_digit c" by simp
  show "strip_sign (dropWhile is_space (ds @ rest)) = (False, ds @ rest)"
    using c by (simp add: cr strip_sign_def is_digit_not_space is_digit_not_sign)
  show "strip_radix (ds @ rest) = (10, ds @ rest)"
  proof (cases r)
    case Nil
    with rest show ?thesis
      by (cases rest) (simp_all add: cr strip_radix_def stops_def)
  next
    case (Cons b r')
    with ds(2) cr have "is_digit b" by simp
    then show ?thesis by (simp add: cr Cons strip_radix_def is_digit_not_sign)
  qed
  have "takeWhile (\<lambda>c. digit_val c < 10) (ds @ rest) = ds @ takeWhile (\<lambda>c. digit_val c < 10) rest"
    using ds(2) by (simp add: takeWhile_append2 digit_val_less_10)
  then show "takeWhile (\<lambda>c. digit_val c < 10) (ds @ rest) = ds"
    by (simp add: takeWhile_stops[OF rest])
qed

lemma parseInt_decimal:
  "stops rest \<Longrightarrow> parseInt (units (decimal n) @ rest) = Some (number False n)"
  by (simp add: parseInt_def parse_digits[OF decimal_nonempty decimal_digits]
        decimal_nonempty digits_value_decimal)

lemma parseInt_minus_decimal:
  assumes "stops rest"
  shows "parseInt (45 # units (decimal n) @ rest) = Some (number True n)"
proof -
  have "\<not> is_space 45" by (simp add: is_space_def)
  then have "strip_sign (dropWhile is_space (45 # units (decimal n) @ rest)) =
      (True, units (decimal n) @ rest)"
    by (simp add: strip_sign_def)
  then show ?thesis
    by (simp add: parseInt_def parse_digits(2,3)[OF decimal_nonempty decimal_digits assms]
          decimal_nonempty digits_value_decimal)
qed

lemma parseInt_decimal_int:
  assumes "exact k" and "stops rest"
  shows "parseInt (units (decimal_int k) @ rest) = Some (JNum (of_int k))"
proof (cases "k < 0")
  case True
  then have "units (decimal_int k) = 45 # units (decimal (nat (- k)))"
    by (simp add: decimal_int_def units_def)
  moreover from True assms(1) have "number True (nat (- k)) = JNum (of_int k)"
    by (simp add: exact_def number_def)
  ultimately show ?thesis
    using parseInt_minus_decimal[OF assms(2), of "nat (- k)"] by simp
next
  case False
  then have "units (decimal_int k) = units (decimal (nat k))"
    by (simp add: decimal_int_def)
  moreover from False assms(1) have "number False (nat k) = JNum (of_int k)"
    by (simp add: exact_def number_def)
  ultimately show ?thesis
    using parseInt_decimal[OF assms(2), of "nat k"] by simp
qed

lemma exact_small: "\<bar>k\<bar> < 2 ^ 53 \<Longrightarrow> exact k"
  by (simp add: exact_def to_double_def nat_less_iff)


text \<open>Some readings: white space beyond U+00FF, a numeric prefix, radix 16, rounding.\<close>

lemma bit_length_numeral:
  "bit_length (numeral (Num.Bit0 n)) = Suc (bit_length (numeral n))"
  "bit_length (numeral (Num.Bit1 n)) = Suc (bit_length (numeral n))"
  "bit_length 1 = 1" "bit_length (Suc 0) = 1"
  by (subst bit_length.simps, simp add: bit_length.simps[of 0])+

lemma parseInt_examples:
  "parseInt (8195 # units ''12abc'') = Some (JNum 12)"
  "parseInt (units ''-0x1F'') = Some (JNum (- 31))"
  "parseInt (units ''0x'') = None"
  by (simp_all add: parse_defs)

lemma parseInt_rounds:
  "parseInt (units ''9007199254740993'') = Some (JNum 9007199254740992)"
  by (simp add: parse_defs bit_length_numeral Let_def)

subsection \<open>Effects\<close>

lemma perform_Nil [simp]: "perform [] s = s"
  by (simp add: perform_def)

lemma perform_Cons [simp]: "perform (a # acts) s = perform acts (exec a s)"
  by (simp add: perform_def)

lemma perform_append: "perform (xs @ ys) s = perform ys (perform xs s)"
  by (simp add: perform_def)

lemma customers_frame:
  "\<forall>a\<in>set acts. \<forall>c. a \<noteq> PushCustomer c \<Longrightarrow> customers (perform acts s) = customers s"
proof (induction acts arbitrary: s)
  case Nil
  show ?case by simp
next
  case (Cons a acts)
  then have "customers (exec a s) = customers s" by (cases a) simp_all
  with Cons show ?case by simp
qed

lemma products_frame:
  "\<forall>a\<in>set acts. \<forall>c. a \<noteq> PushProduct c \<Longrightarrow> products (perform acts s) = products s"
proof (induction acts arbitrary: s)
  case Nil
  show ?case by simp
next
  case (Cons a acts)
  then have "products (exec a s) = products s" by (cases a) simp_all
  with Cons show ?case by simp
qed

lemma histogram_frame:
  "\<forall>a\<in>set acts. \<not> is_Observe a \<Longrightarrow>
     httpRequestDurationMicroseconds (perform acts s) = httpRequestDurationMicroseconds s"
proof (induction acts arbitrary: s)
  case Nil
  show ?case by simp
next
  case (Cons a acts)
  then have "httpRequestDurationMicroseconds (exec a s) = httpRequestDurationMicroseconds s"
    by (cases a) simp_all
  with Cons show ?case by simp
qed

lemma customer_side_frame:
  "\<forall>a\<in>set acts. customer_side a \<Longrightarrow>
     products (perform acts s) = products s \<and>
     productOperationsCounter (perform acts s) = productOperationsCounter s \<and>
     errorCounter (perform acts s) (''/products/:id'', m) = errorCounter s (''/products/:id'', m) \<and>
     errorCounter (perform acts s) (''/products'', m) = errorCounter s (''/products'', m)"
proof (induction acts arbitrary: s)
  case Nil
  show ?case by simp
next
  case (Cons a acts)
  then have "products (exec a s) = products s \<and>
     productOperationsCounter (exec a s) = productOperationsCounter s \<and>
     errorCounter (exec a s) (''/products/:id'', m) = errorCounter s (''/products/:id'', m) \<and>
     errorCounter (exec a s) (''/products'', m) = errorCounter s (''/products'', m)"
    by (cases a) auto
  with Cons show ?case by simp
qed

lemma product_side_frame:
  "\<forall>a\<in>set acts. product_side a \<Longrightarrow>
     customers (perform acts s) = customers s \<and>
     customerOperationsCounter (perform acts s) = customerOperationsCounter s \<and>
     errorCounter (perform acts s) (''/customers/:id'', m) = errorCounter s (''/customers/:id'', m) \<and>
     errorCounter (perform acts s) (''/customers'', m) = errorCounter s (''/customers'', m)"
proof (induction acts arbitrary: s)
  case Nil
  show ?case by simp
next
  case (Cons a acts)
  then have "customers (exec a s) = customers s \<and>
     customerOperationsCounter (exec a s) = customerOperationsCounter s \<and>
     errorCounter (exec a s) (''/customers/:id'', m) = errorCounter s (''/customers/:id'', m) \<and>
     errorCounter (exec a s) (''/customers'', m) = errorCounter s (''/customers'', m)"
    by (cases a) auto
  with Cons show ?case by simp
qed

lemma statusCode_Observe [simp]: "statusCode (acts @ [Observe m p st d]) = statusCode acts"
  by (simp add: statusCode_def)

lemma sent_Observe [simp]: "sent (acts @ [Observe m p st d]) = sent acts"
  by (simp add: sent_def)

lemma statusCode_Send [simp]: "statusCode (acts @ [Send st b]) = st"
  by (simp add: statusCode_def)

lemma sent_Send [simp]: "sent (acts @ [Send st b]) = b"
  by (simp add: sent_def)

subsection \<open>Exceptions\<close>

lemma attempt_None [simp]: "attempt None block h = block"
  by (simp add: attempt_def)

lemma attempt_one:
  "attempt f [a] h = [a] \<or> (\<exists>msg. attempt f [a] h = h msg)"
  by (auto simp: attempt_def split: option.splits)

lemma attempt_two:
  "attempt f [a, b] h = [a, b] \<or>
   (\<exists>msg. attempt f [a, b] h = h msg \<or> attempt f [a, b] h = a # h msg)"
proof (cases f)
  case None
  then show ?thesis by simp
next
  case (Some im)
  obtain i msg where im: "im = (i, msg)" by (cases im)
  consider "i = 0" | "i = 1" | "2 \<le> i" by linarith
  then show ?thesis
    by cases (auto simp: attempt_def Some im)
qed

lemma attempt_three:
  "attempt f [a, b, c] h = [a, b, c] \<or>
   (\<exists>msg. attempt f [a, b, c] h = h msg \<or> attempt f [a, b, c] h = a # h msg \<or>
          attempt f [a, b, c] h = a # b # h msg)"
proof (cases f)
  case None
  then show ?thesis by simp
next
  case (Some im)
  obtain i msg where im: "im = (i, msg)" by (cases im)
  consider "i = 0" | "i = 1" | "i = 2" | "3 \<le> i" by linarith
  then show ?thesis
    by cases (auto simp: attempt_def Some im)
qed

subsection \<open>One request\<close>

lemma sample_sel [simp]:
  "req_method (sample m p t b) = m" "path (sample m p t b) = p" "target (sample m p t b) = t"
  "body (sample m p t b) = b" "start (sample m p t b) = 1000" "clock (sample m p t b) = 1001"
  "finish (sample m p t b) = 1003" "validators_match (sample m p t b) = False"
  "fault (sample m p t b) = None"
  by (simp_all add: sample_def)

lemma post_customer_sel [simp]:
  "target (post_customer b) = Routed CustomersCreate" "body (post_customer b) = b"
  "clock (post_customer b) = 1001" "fault (post_customer b) = None"
  by (simp_all add: post_customer_def)

lemma post_product_sel [simp]:
  "target (post_product b) = Routed ProductsCreate" "body (post_product b) = b"
  "clock (post_product b) = 1001" "fault (post_product b) = None"
  by (simp_all add: post_product_def)

lemma get_customer_sel [simp]:
  "target (get_customer p) = Routed (CustomersById (units p))" "req_method (get_customer p) = ''GET''"
  "path (get_customer p) = ''/customers/'' @ p" "start (get_customer p) = 1000"
  "finish (get_customer p) = 1003" "validators_match (get_customer p) = False"
  "fault (get_customer p) = None"
  by (simp_all add: get_customer_def)

lemma routed:
  assumes "target req = Routed r"
  shows "app s req =
           routes s req r @
           [Observe (req_method req) (path req) (statusCode (routes s req r)) (finish req - start req)]"
    and "status s req = statusCode (routes s req r)"
    and "reply s req = sent (routes s req r)"
    and "serve s req =
           exec (Observe (req_method req) (path req) (statusCode (routes s req r)) (finish req - start req))
             (perform (routes s req r) s)"
  using assms by (simp_all add: app_defs Let_def perform_append)

lemma serve_stores:
  assumes "target req = Routed r"
  shows "customers (serve s req) = customers (perform (routes s req r) s)"
    and "products (serve s req) = products (perform (routes s req r) s)"
    and "customerOperationsCounter (serve s req) = customerOperationsCounter (perform (routes s req r) s)"
    and "productOperationsCounter (serve s req) = productOperationsCounter (perform (routes s req r) s)"
    and "errorCounter (serve s req) = errorCounter (perform (routes s req r) s)"
  by (simp_all add: routed(4)[OF assms])

lemma serve_upstream:
  "target req = Upstream st \<Longrightarrow> serve s req = s \<and> status s req = st"
  by (simp add: app_defs statusCode_def)

text \<open>The forms a handler's effects can take.\<close>

lemma post_customers_forms:
  fixes s req
  defines "c \<equiv> new_record (length (customers s)) (body req) (clock req)"
  shows "post_customers s req = [PushCustomer c, IncCustomerOp ''create'', Send 201 (Json c)] \<or>
    (\<exists>msg. post_customers s req = [IncError ''/customers'' ''POST'', Send 500 (error_body msg)] \<or>
       post_customers s req = [PushCustomer c, IncError ''/customers'' ''POST'', Send 500 (error_body msg)] \<or>
       post_customers s req =
         [PushCustomer c, IncCustomerOp ''create'', IncError ''/customers'' ''POST'', Send 500 (error_body msg)])"
  using attempt_three[of "fault req" "PushCustomer c" "IncCustomerOp ''create''" "Send 201 (Json c)"
      "\<lambda>msg. [IncError ''/customers'' ''POST'', Send 500 (error_body msg)]"]
  by (simp add: post_customers_def c_def Let_def)

lemma post_products_forms:
  fixes s req
  defines "c \<equiv> new_record (length (products s)) (body req) (clock req)"
  shows "post_products s req = [PushProduct c, IncProductOp ''create'', Send 201 (Json c)] \<or>
    (\<exists>msg. post_products s req = [IncError ''/products'' ''POST'', Send 500 (error_body msg)] \<or>
       post_products s req = [PushProduct c, IncError ''/products'' ''POST'', Send 500 (error_body msg)] \<or>
       post_products s req =
         [PushProduct c, IncProductOp ''create'', IncError ''/products'' ''POST'', Send 500 (error_body msg)])"
  using attempt_three[of "fault req" "PushProduct c" "IncProductOp ''create''" "Send 201 (Json c)"
      "\<lambda>msg. [IncError ''/products'' ''POST'', Send 500 (error_body msg)]"]
  by (simp add: post_products_def c_def Let_def)

lemma post_customers_unfailing:
  "fault req = None \<Longrightarrow>
     post_customers s req =
       [PushCustomer (new_record (length (customers s)) (body req) (clock req)),
        IncCustomerOp ''create'',
        Send 201 (Json (new_record (length (customers s)) (body req) (clock req)))]"
  by (simp add: post_customers_def Let_def)

lemma post_customers_201:
  assumes "statusCode (post_customers s req) = 201"
  shows "post_customers s req =
       [PushCustomer (new_record (length (customers s)) (body req) (clock req)),
        IncCustomerOp ''create'',
        Send 201 (Json (new_record (length (customers s)) (body req) (clock req)))]"
  using post_customers_forms[of s req] assms by (auto simp: statusCode_def)

lemma post_products_201:
  assumes "statusCode (post_products s req) = 201"
  shows "post_products s req =
       [PushProduct (new_record (length (products s)) (body req) (clock req)),
        IncProductOp ''create'',
        Send 201 (Json (new_record (length (products s)) (body req) (clock req)))]"
  using post_products_forms[of s req] assms by (auto simp: statusCode_def)

lemma by_id_forms:
  "attempt f
     (case found of
        None \<Rightarrow> [IncError r ''GET'', res_json req 404 miss]
      | Some c \<Rightarrow> [IncOp, res_json req 200 (Json c)])
     (\<lambda>msg. [IncError r ''GET'', res_json req 500 (error_body msg)]) =
   (case found of
      None \<Rightarrow> [IncError r ''GET'', res_json req 404 miss]
    | Some c \<Rightarrow> [IncOp, res_json req 200 (Json c)]) \<or>
   (\<exists>msg. attempt f
       (case found of
          None \<Rightarrow> [IncError r ''GET'', res_json req 404 miss]
        | Some c \<Rightarrow> [IncOp, res_json req 200 (Json c)])
       (\<lambda>msg. [IncError r ''GET'', res_json req 500 (error_body msg)]) \<in>
     {[IncError r ''GET'', res_json req 500 (error_body msg)],
      [IncError r ''GET'', IncError r ''GET'', res_json req 500 (error_body msg)],
      [IncOp, IncError r ''GET'', res_json req 500 (error_body msg)]})"
proof (cases found)
  case None
  show ?thesis
    using attempt_two[of f "IncError r ''GET''" "res_json req 404 miss"
        "\<lambda>msg. [IncError r ''GET'', res_json req 500 (error_body msg)]"]
    by (auto simp: None)
next
  case (Some c)
  show ?thesis
    using attempt_two[of f IncOp "res_json req 200 (Json c)"
        "\<lambda>msg. [IncError r ''GET'', res_json req 500 (error_body msg)]"]
    by (auto simp: Some)
qed


lemma customer_by_id_404:
  assumes "statusCode (get_customer_by_id s req p) = 404"
  shows "find_by_id (customers s) p = None \<and>
         get_customer_by_id s req p =
           [IncError ''/customers/:id'' ''GET'',
            res_json req 404 (Json [''message'' \<mapsto> JStr ''Customer not found''])]"
  using by_id_forms[where f = "fault req" and found = "find_by_id (customers s) p"
      and r = "''/customers/:id''" and req = req
      and miss = "Json [''message'' \<mapsto> JStr ''Customer not found'']"
      and IncOp = "IncCustomerOp ''get_by_id''"] assms
  by (auto simp: get_customer_by_id_def statusCode_def res_json_def Let_def
        split: option.splits if_splits)

lemma product_by_id_404:
  assumes "statusCode (get_product_by_id s req p) = 404"
  shows "find_by_id (products s) p = None \<and>
         get_product_by_id s req p =
           [IncError ''/products/:id'' ''GET'',
            res_json req 404 (Json [''message'' \<mapsto> JStr ''Product not found''])]"
  using by_id_forms[where f = "fault req" and found = "find_by_id (products s) p"
      and r = "''/products/:id''" and req = req
      and miss = "Json [''message'' \<mapsto> JStr ''Product not found'']"
      and IncOp = "IncProductOp ''get_by_id''"] assms
  by (auto simp: get_product_by_id_def statusCode_def res_json_def Let_def
        split: option.splits if_splits)

lemma customer_by_id_unfailing:
  "fault req = None \<Longrightarrow>
     get_customer_by_id s req p =
       (case find_by_id (customers s) p of
          None \<Rightarrow> [IncError ''/customers/:id'' ''GET'',
                   res_json req 404 (Json [''message'' \<mapsto> JStr ''Customer not found''])]
        | Some customer \<Rightarrow> [IncCustomerOp ''get_by_id'', res_json req 200 (Json customer)])"
  by (simp add: get_customer_by_id_def)


lemma set_attempt:
  "a \<in> set (attempt f block h) \<Longrightarrow> a \<in> set block \<or> (\<exists>msg. a \<in> set (h msg))"
  by (auto simp: attempt_def split: option.splits if_splits dest: in_set_takeD)

lemma attempt_ends_with_Send:
  assumes "\<exists>pre st b. block = pre @ [Send st b]"
    and "\<And>msg. \<exists>pre st b. h msg = pre @ [Send st b]"
  shows "\<exists>pre st b. attempt f block h = pre @ [Send st b]"
proof (cases "attempt f block h = block")
  case True
  with assms(1) show ?thesis by simp
next
  case False
  then obtain i msg where "attempt f block h = take i block @ h msg"
    by (auto simp: attempt_def split: option.splits if_splits)
  moreover obtain pre st b where "h msg = pre @ [Send st b]"
    using assms(2) by blast
  ultimately have "attempt f block h = (take i block @ pre) @ [Send st b]" by simp
  then show ?thesis by blast
qed

lemma res_json_is_Send: "\<exists>st' b'. res_json req st b = Send st' b'"
  by (simp add: res_json_def Let_def)

lemma routes_end_with_Send: "\<exists>pre st b. routes s req r = pre @ [Send st b]"
proof -
  have one: "\<exists>pre st' b'. [res_json req st b] = pre @ [Send st' b']" for st b
    using res_json_is_Send[of req st b] by auto
  have two: "\<exists>pre st' b'. [x, res_json req st b] = pre @ [Send st' b']" for x st b
  proof -
    obtain st' b' where "res_json req st b = Send st' b'"
      using res_json_is_Send by blast
    then have "[x, res_json req st b] = [x] @ [Send st' b']" by simp
    then show ?thesis by blast
  qed
  have three: "\<exists>pre st' b'. [x, y, Send st b] = pre @ [Send st' b']" for x y st b
  proof -
    have "[x, y, Send st b] = [x, y] @ [Send st b]" by simp
    then show ?thesis by blast
  qed
  have unc: "\<exists>pre st b. uncaught msg = pre @ [Send st b]" for msg
    by (simp add: uncaught_def)
  have catch: "\<exists>pre st' b'. [x, Send st b] = pre @ [Send st' b']" for x st b
  proof -
    have "[x, Send st b] = [x] @ [Send st b]" by simp
    then show ?thesis by blast
  qed
  show ?thesis
  proof (cases r)
    case Root
    then show ?thesis
      by (simp add: get_root_def) (rule attempt_ends_with_Send[OF one unc])
  next
    case CustomersIndex
    then show ?thesis
      by (simp add: get_customers_def) (rule attempt_ends_with_Send[OF two unc])
  next
    case CustomersCreate
    then show ?thesis
      by (simp add: post_customers_def Let_def) (rule attempt_ends_with_Send[OF three catch])
  next
    case (CustomersById p)
    then show ?thesis
      by (cases "find_by_id (customers s) p")
         (simp_all add: get_customer_by_id_def, (rule attempt_ends_with_Send[OF two two])+)
  next
    case ProductsIndex
    then show ?thesis
      by (simp add: get_products_def) (rule attempt_ends_with_Send[OF two unc])
  next
    case ProductsCreate
    then show ?thesis
      by (simp add: post_products_def Let_def) (rule attempt_ends_with_Send[OF three catch])
  next
    case (ProductsById p)
    then show ?thesis
      by (cases "find_by_id (products s) p")
         (simp_all add: get_product_by_id_def, (rule attempt_ends_with_Send[OF two two])+)
  next
    case Undecodable
    then show ?thesis by simp
  next
    case NoRoute
    then show ?thesis by simp
  qed
qed

lemma routes_send_status: "Send (statusCode (routes s req r)) (sent (routes s req r)) \<in> set (routes s req r)"
proof -
  obtain pre st b where "routes s req r = pre @ [Send st b]"
    using routes_end_with_Send by blast
  then show ?thesis by simp
qed

lemma routes_effects:
  assumes "a \<in> set (routes s req r)"
  shows "\<not> is_Observe a"
    and "r \<noteq> CustomersCreate \<Longrightarrow> a \<noteq> PushCustomer c"
    and "r \<noteq> ProductsCreate \<Longrightarrow> a \<noteq> PushProduct c"
    and "customer_operation (Routed r) \<Longrightarrow> customer_side a"
    and "product_operation (Routed r) \<Longrightarrow> product_side a"
  using assms
  by (cases r;
      auto simp: handler_defs res_json_def Let_def uncaught_def
        dest!: set_attempt split: option.splits if_splits)+

subsection \<open>Creating a record\<close>

lemma created:
  assumes "target req = Routed CustomersCreate" and "status s req = 201"
  shows "customers (serve s req) = customers s @ [new_record (length (customers s)) (body req) (clock req)]"
    and "reply s req = Json (new_record (length (customers s)) (body req) (clock req))"
    and "customerOperationsCounter (serve s req) =
           (customerOperationsCounter s)(''create'' := customerOperationsCounter s ''create'' + 1)"
proof -
  from assms have "statusCode (post_customers s req) = 201"
    by (simp add: routed(2)[OF assms(1)])
  note f = post_customers_201[OF this]
  show "customers (serve s req) = customers s @ [new_record (length (customers s)) (body req) (clock req)]"
    by (simp add: serve_stores[OF assms(1)] f)
  show "reply s req = Json (new_record (length (customers s)) (body req) (clock req))"
    by (simp add: routed(3)[OF assms(1)] f sent_def)
  show "customerOperationsCounter (serve s req) =
           (customerOperationsCounter s)(''create'' := customerOperationsCounter s ''create'' + 1)"
    by (simp add: serve_stores[OF assms(1)] f)
qed

lemma created_product:
  assumes "target req = Routed ProductsCreate" and "status s req = 201"
  shows "products (serve s req) = products s @ [new_record (length (products s)) (body req) (clock req)]"
    and "reply s req = Json (new_record (length (products s)) (body req) (clock req))"
proof -
  from assms have "statusCode (post_products s req) = 201"
    by (simp add: routed(2)[OF assms(1)])
  note f = post_products_201[OF this]
  show "products (serve s req) = products s @ [new_record (length (products s)) (body req) (clock req)]"
    by (simp add: serve_stores[OF assms(1)] f)
  show "reply s req = Json (new_record (length (products s)) (body req) (clock req))"
    by (simp add: routed(3)[OF assms(1)] f sent_def)
qed

lemma unfailing_201:
  "target req = Routed CustomersCreate \<or> target req = Routed ProductsCreate \<Longrightarrow> fault req = None \<Longrightarrow>
     status s req = 201"
  by (auto simp: routed(2) post_customers_def post_products_def Let_def statusCode_def)

lemma post_customers_store:
  assumes "target req = Routed CustomersCreate"
  shows "customers (serve s req) = customers s \<or>
         customers (serve s req) =
           customers s @ [new_record (length (customers s)) (body req) (clock req)]"
  using post_customers_forms[of s req]
  by (auto simp: serve_stores[OF assms])

lemma post_products_store:
  assumes "target req = Routed ProductsCreate"
  shows "products (serve s req) = products s \<or>
         products (serve s req) =
           products s @ [new_record (length (products s)) (body req) (clock req)]"
  using post_products_forms[of s req]
  by (auto simp: serve_stores[OF assms])

lemma serve_customers_other:
  assumes "target req \<noteq> Routed CustomersCreate"
  shows "customers (serve s req) = customers s"
proof (cases "target req")
  case (Upstream st)
  then show ?thesis by (simp add: serve_upstream)
next
  case (Routed r)
  with assms have "r \<noteq> CustomersCreate" by simp
  then have "\<forall>a\<in>set (routes s req r). \<forall>c. a \<noteq> PushCustomer c"
    using routes_effects(2) by blast
  then show ?thesis
    by (simp add: serve_stores[OF Routed] customers_frame)
qed

lemma serve_products_other:
  assumes "target req \<noteq> Routed ProductsCreate"
  shows "products (serve s req) = products s"
proof (cases "target req")
  case (Upstream st)
  then show ?thesis by (simp add: serve_upstream)
next
  case (Routed r)
  with assms have "r \<noteq> ProductsCreate" by simp
  then have "\<forall>a\<in>set (routes s req r). \<forall>c. a \<noteq> PushProduct c"
    using routes_effects(3) by blast
  then show ?thesis
    by (simp add: serve_stores[OF Routed] products_frame)
qed

subsection \<open>Sequences of requests\<close>

lemma upt_from: "[Suc n..<Suc (n + Suc m)] = Suc n # [Suc (Suc n)..<Suc (Suc n + m)]"
  using upt_conv_Cons[of "Suc n" "Suc (n + Suc m)"] by simp

lemma statuses_unfailing:
  "\<forall>r\<in>set reqs. target r = Routed CustomersCreate \<and> fault r = None \<Longrightarrow>
     map fst (replies s reqs) = replicate (length reqs) 201"
  by (induction reqs arbitrary: s) (simp_all add: unfailing_201)

lemma replies_from:
  "\<forall>r\<in>set reqs. target r = Routed CustomersCreate \<and> \<not> has_id_key (body r) \<Longrightarrow>
   map fst (replies s reqs) = replicate (length reqs) 201 \<Longrightarrow>
     map (\<lambda>r. returned_id (snd r)) (replies s reqs) =
       map (\<lambda>i. Some (JNum (of_nat i))) [Suc (length (customers s))..<Suc (length (customers s) + length reqs)]"
proof (induction reqs arbitrary: s)
  case Nil
  show ?case by simp
next
  case (Cons r reqs)
  from Cons.prems have r: "target r = Routed CustomersCreate" "\<not> has_id_key (body r)" by simp_all
  from Cons.prems have rest: "\<forall>r\<in>set reqs. target r = Routed CustomersCreate \<and> \<not> has_id_key (body r)"
    by simp
  from Cons.prems(2) have st: "status s r = 201"
    and sts: "map fst (replies (serve s r) reqs) = replicate (length reqs) 201"
    by simp_all
  note step = created[OF r(1) st]
  have len: "length (customers (serve s r)) = Suc (length (customers s))"
    by (simp add: step)
  have hd: "returned_id (reply s r) = Some (JNum (of_nat (Suc (length (customers s)))))"
    by (simp add: step returned_id_def new_record_id_server[OF r(2)])
  have ih: "map (\<lambda>r. returned_id (snd r)) (replies (serve s r) reqs) =
       map (\<lambda>i. Some (JNum (of_nat i)))
         [Suc (Suc (length (customers s)))..<Suc (Suc (length (customers s)) + length reqs)]"
    using Cons.IH[OF rest sts] by (simp only: len)
  have "length (r # reqs) = Suc (length reqs)" by simp
  then show ?case
    by (simp only: upt_from replies.simps list.map snd_conv hd ih)
qed

lemma first_ids_Suc: "first_ids (Suc n) = first_ids n @ [Some (JNum (of_nat n + 1))]"
  by (simp add: first_ids_def)

lemma increasing_first_ids: "increasing (first_ids n)"
proof -
  have "sorted_wrt (\<lambda>i j. id_less (Some (JNum (of_nat i))) (Some (JNum (of_nat j)))) [1..<Suc n]"
    using sorted_wrt_upt[of 1 "Suc n"] by (simp add: id_less_def del: upt_Suc)
  then show ?thesis
    by (simp add: increasing_def first_ids_def sorted_wrt_map del: upt_Suc)
qed

lemma distinct_first_ids: "distinct (first_ids n)"
  by (simp add: first_ids_def distinct_map inj_on_def del: upt_Suc)

lemma numbered_serve:
  assumes "numbered s" and "server_numbered req"
  shows "numbered (serve s req)"
proof -
  consider (c) "target req = Routed CustomersCreate" | (p) "target req = Routed ProductsCreate"
    | (o) "target req \<noteq> Routed CustomersCreate" "target req \<noteq> Routed ProductsCreate" by blast
  then show ?thesis
  proof cases
    case c
    then have "products (serve s req) = products s"
      by (simp add: serve_products_other)
    with assms c post_customers_store[OF c, of s] show ?thesis
      by (auto simp: numbered_def server_numbered_def ids_def first_ids_Suc new_record_id_server)
  next
    case p
    then have "customers (serve s req) = customers s"
      by (simp add: serve_customers_other)
    with assms p post_products_store[OF p, of s] show ?thesis
      by (auto simp: numbered_def server_numbered_def ids_def first_ids_Suc new_record_id_server)
  next
    case o
    with assms show ?thesis
      by (simp add: numbered_def serve_customers_other serve_products_other)
  qed
qed

lemma numbered_run:
  "numbered s \<Longrightarrow> list_all server_numbered reqs \<Longrightarrow> numbered (run s reqs)"
  by (induction reqs arbitrary: s) (simp_all add: numbered_serve)

lemma run_extends: "\<exists>ext. customers (run s reqs) = customers s @ ext"
proof (induction reqs arbitrary: s)
  case Nil
  show ?case by simp
next
  case (Cons r reqs)
  obtain ext where ext: "customers (run (serve s r) reqs) = customers (serve s r) @ ext"
    using Cons.IH by blast
  show ?case
  proof (cases "target r = Routed CustomersCreate")
    case True
    from post_customers_store[OF True, of s] show ?thesis
      by (auto simp: ext)
  next
    case False
    then show ?thesis by (simp add: ext serve_customers_other)
  qed
qed

lemma find_first:
  "\<forall>x\<in>set xs. \<not> P x \<Longrightarrow> P c \<Longrightarrow> List.find P (xs @ c # ext) = Some c"
  by (induction xs) simp_all

subsection \<open>Looking a record up\<close>

lemma customer_by_id_status:
  assumes "target req = Routed (CustomersById p)" and "fault req = None"
  shows "status s req =
           (if find_by_id (customers s) p = None then 404
            else if validators_match req then 304 else 200)"
    and "find_by_id (customers s) p = Some c \<Longrightarrow>
           reply s req = (if validators_match req \<or> req_method req = ''HEAD'' then No_body else Json c)"
  by (simp_all add: routed(2,3)[OF assms(1)] customer_by_id_unfailing[OF assms(2)]
        res_json_def Let_def statusCode_def sent_def split: option.splits)










section \<open>Identifiers of created records\<close>

text \<open>
  Claim C1, as stated: N successful \<^verbatim>\<open>POST /customers\<close> requests on an empty store return
  the \<^verbatim>\<open>id\<close>s 1 to N in call order, whatever the request bodies. It fails: the body is
  spread after the \<^verbatim>\<open>id\<close> field, so a body with an \<^verbatim>\<open>id\<close> key decides the \<^verbatim>\<open>id\<close> that
  is returned. One POST of \<^verbatim>\<open>{"id": 7}\<close> on the empty store is answered 201 with
  \<^verbatim>\<open>id\<close> 7, not 1.
\<close>

theorem ids_in_call_order_counterexample:
  "customers init = [] \<and>
   customers_post (post_customer (JObj [(''id'', JNum 7)])) \<and>
   statuses (replies init [post_customer (JObj [(''id'', JNum 7)])]) = [201] \<and>
   returned_ids (replies init [post_customer (JObj [(''id'', JNum 7)])]) = [Some (JNum 7)] \<and>
   returned_ids (replies init [post_customer (JObj [(''id'', JNum 7)])]) \<noteq> first_ids 1"
proof -
  let ?r = "post_customer (JObj [(''id'', JNum 7)])"
  have t: "target ?r = Routed CustomersCreate" by simp
  have st: "status init ?r = 201" by (simp add: unfailing_201)
  have e: "customers init = []" by (simp add: init_def)
  have "returned_id (reply init ?r) = Some (JNum 7)"
    by (simp add: created(2)[OF t st] returned_id_def new_record_apply)
  with st e show ?thesis
    by (simp add: customers_post_def statuses_def returned_ids_def first_ids_def)
qed

text \<open>
  Claim C1, amended: for every sequence of N successful \<^verbatim>\<open>POST /customers\<close> requests on an
  empty customer store whose bodies bring no \<^verbatim>\<open>id\<close> key, the returned \<^verbatim>\<open>id\<close>s are
  exactly 1 to N in call order, whatever else the bodies contain; and the requests are all
  successful, answered 201, when no handler throws.
\<close>

theorem ids_in_call_order:
  assumes "customers s = []"
    and "list_all customers_post reqs"
    and "list_all (\<lambda>r. \<not> has_id_key (body r)) reqs"
  shows "(list_all unfailing reqs \<longrightarrow> statuses (replies s reqs) = replicate (length reqs) 201) \<and>
         (statuses (replies s reqs) = replicate (length reqs) 201 \<longrightarrow>
            returned_ids (replies s reqs) = first_ids (length reqs))"
proof -
  from assms(2,3)
  have a: "\<forall>r\<in>set reqs. target r = Routed CustomersCreate \<and> \<not> has_id_key (body r)"
    by (simp add: list_all_iff customers_post_def)
  have "list_all unfailing reqs \<longrightarrow> statuses (replies s reqs) = replicate (length reqs) 201"
  proof
    assume "list_all unfailing reqs"
    with a have "\<forall>r\<in>set reqs. target r = Routed CustomersCreate \<and> fault r = None"
      by (simp add: list_all_iff unfailing_def)
    from statuses_unfailing[OF this] show "statuses (replies s reqs) = replicate (length reqs) 201"
      by (simp add: statuses_def)
  qed
  moreover have "statuses (replies s reqs) = replicate (length reqs) 201 \<longrightarrow>
      returned_ids (replies s reqs) = first_ids (length reqs)"
  proof
    assume "statuses (replies s reqs) = replicate (length reqs) 201"
    then have "map fst (replies s reqs) = replicate (length reqs) 201"
      by (simp add: statuses_def)
    from replies_from[OF a this] show "returned_ids (replies s reqs) = first_ids (length reqs)"
      by (simp add: assms(1) first_ids_def returned_ids_def)
  qed
  ultimately show ?thesis by blast
qed

theorem ids_in_call_order_witness:
  "customers init = [] \<and>
   list_all customers_post [post_customer (named ''A''), post_customer (named ''B'')] \<and>
   list_all (\<lambda>r. \<not> has_id_key (body r)) [post_customer (named ''A''), post_customer (named ''B'')] \<and>
   list_all unfailing [post_customer (named ''A''), post_customer (named ''B'')] \<and>
   statuses (replies init [post_customer (named ''A''), post_customer (named ''B'')]) = [201, 201] \<and>
   returned_ids (replies init [post_customer (named ''A''), post_customer (named ''B'')]) =
     [Some (JNum 1), Some (JNum 2)]"
proof -
  have a: "customers init = []"
    by (simp add: init_def)
  have b: "list_all customers_post [post_customer (named ''A''), post_customer (named ''B'')]"
    by (simp add: customers_post_def)
  have c: "list_all (\<lambda>r. \<not> has_id_key (body r)) [post_customer (named ''A''), post_customer (named ''B'')]"
    by (simp add: has_id_key_def named_def)
  have d: "list_all unfailing [post_customer (named ''A''), post_customer (named ''B'')]"
    by (simp add: unfailing_def)
  have f: "first_ids 2 = [Some (JNum 1), Some (JNum 2)]"
    by (simp add: first_ids_def upt_rec)
  have l: "length [post_customer (named ''A''), post_customer (named ''B'')] = 2"
    by simp
  have r: "replicate 2 (201::nat) = [201, 201]"
    by (simp add: numeral_2_eq_2)
  note ids_in_call_order[OF a b c, unfolded l f r]
  with a b c d show ?thesis by blast
qed

text \<open>
  Claim C2, as stated: in every reachable state the \<^verbatim>\<open>id\<close>s of a store are pairwise unique
  and strictly increasing in insertion order. It fails for the same reason: after a POST of
  \<^verbatim>\<open>{"name": "A"}\<close> and a POST of \<^verbatim>\<open>{"id": 1}\<close> the customer store holds the \<^verbatim>\<open>id\<close> 1
  twice.
\<close>

theorem store_ids_increasing_counterexample:
  "ids (customers (run init [post_customer (named ''A''), post_customer (JObj [(''id'', JNum 1)])])) =
     [Some (JNum 1), Some (JNum 1)] \<and>
   \<not> distinct (ids (customers (run init [post_customer (named ''A''), post_customer (JObj [(''id'', JNum 1)])]))) \<and>
   \<not> increasing (ids (customers (run init [post_customer (named ''A''), post_customer (JObj [(''id'', JNum 1)])])))"
proof -
  let ?a = "post_customer (named ''A'')"
  let ?b = "post_customer (JObj [(''id'', JNum 1)])"
  have e: "customers init = []" by (simp add: init_def)
  have sa: "status init ?a = 201" and sb: "status (serve init ?a) ?b = 201"
    by (simp_all add: unfailing_201)
  have ca: "customers (serve init ?a) = [new_record 0 (named ''A'') 1001]"
    by (simp add: created(1)[OF _ sa] e)
  have cb: "customers (serve (serve init ?a) ?b) =
      [new_record 0 (named ''A'') 1001, new_record (Suc 0) (JObj [(''id'', JNum 1)]) 1001]"
    by (simp add: created(1)[OF _ sb] ca)
  have "ids [new_record 0 (named ''A'') 1001, new_record (Suc 0) (JObj [(''id'', JNum 1)]) 1001] =
      [Some (JNum 1), Some (JNum 1)]"
    by (simp add: ids_def new_record_apply named_def)
  then have "ids (customers (run init [?a, ?b])) = [Some (JNum 1), Some (JNum 1)]"
    by (simp add: cb)
  then show ?thesis
    by (simp add: increasing_def id_less_def)
qed

text \<open>
  Claim C2, amended: in every state reached from the empty stores by any sequence of
  requests in which no POST body brings an \<^verbatim>\<open>id\<close> key, the \<^verbatim>\<open>id\<close>s of the customer store
  and of the product store are 1, 2, ... in insertion order, hence pairwise unique and
  strictly increasing.
\<close>

theorem store_ids_increasing:
  assumes "list_all server_numbered reqs"
    and "store = customers (run init reqs) \<or> store = products (run init reqs)"
  shows "ids store = first_ids (length store) \<and> distinct (ids store) \<and> increasing (ids store)"
proof -
  have "numbered init" by (simp add: numbered_def init_def ids_def first_ids_def)
  from numbered_run[OF this assms(1)] assms(2)
  have "ids store = first_ids (length store)" by (auto simp: numbered_def)
  then show ?thesis by (simp add: distinct_first_ids increasing_first_ids)
qed

theorem store_ids_increasing_witness:
  "list_all server_numbered
     [post_customer (named ''A''), get_customer ''1'', post_product (named ''P''), post_customer (named ''B'')] \<and>
   ids (customers (run init
     [post_customer (named ''A''), get_customer ''1'', post_product (named ''P''), post_customer (named ''B'')])) =
     [Some (JNum 1), Some (JNum 2)] \<and>
   distinct (ids (customers (run init
     [post_customer (named ''A''), get_customer ''1'', post_product (named ''P''), post_customer (named ''B'')]))) \<and>
   increasing (ids (customers (run init
     [post_customer (named ''A''), get_customer ''1'', post_product (named ''P''), post_customer (named ''B'')])))"
proof -
  let ?a = "post_customer (named ''A'')"
  let ?b = "post_customer (named ''B'')"
  let ?reqs = "[?a, get_customer ''1'', post_product (named ''P''), ?b]"
  let ?s3 = "serve (serve (serve init ?a) (get_customer ''1'')) (post_product (named ''P''))"
  have a: "list_all server_numbered ?reqs"
    by (simp add: server_numbered_def has_id_key_def named_def)
  have e: "customers init = []"
    by (simp add: init_def)
  have "length (customers (serve init ?a)) = 1"
    by (simp add: created(1)[OF _ unfailing_201] e)
  then have "length (customers ?s3) = 1"
    by (simp add: serve_customers_other)
  then have l: "length (customers (run init ?reqs)) = 2"
    by (simp add: created(1)[OF _ unfailing_201])
  have f: "first_ids 2 = [Some (JNum 1), Some (JNum 2)]"
    by (simp add: first_ids_def upt_rec)
  note store_ids_increasing[OF a disjI1[OF refl], unfolded l f]
  with a show ?thesis by (rule conjI)
qed

section \<open>The duration histogram\<close>

text \<open>
  Claim C3, as stated: for every completed request the sample count of
  \<^verbatim>\<open>http_request_duration_ms\<close> under that request's (method, route, status code) grows by
  exactly 1. It fails for a request that is answered before the timing middleware: the
  metrics bundle is mounted first and serves \<^verbatim>\<open>GET /metrics\<close> itself, so that request
  completes with status 200 and no sample is observed.
\<close>

theorem histogram_once_counterexample:
  "target get_metrics = Upstream 200 \<and>
   status init get_metrics = 200 \<and>
   sample_count (serve init get_metrics) (''GET'', ''/metrics'', 200) =
     sample_count init (''GET'', ''/metrics'', 200) \<and>
   sample_count (serve init get_metrics) (''GET'', ''/metrics'', 200) \<noteq>
     sample_count init (''GET'', ''/metrics'', 200) + 1"
  by (simp add: get_metrics_def serve_upstream)

text \<open>
  Claim C3, amended: for every completed request that reaches the timing middleware (every
  request but those answered by the middleware mounted before it, such as
  \<^verbatim>\<open>GET /metrics\<close>), one sample, the duration, is observed after the response is sent,
  under the label tuple (method, path, status code) of that request, the status code being
  the one of the response that was sent: the sample count under that tuple grows by exactly
  1 and no other tuple changes. This holds whatever the response is: a 200 or 201, the 304
  of a conditional GET, the 404 of a lookup miss or of an unknown route, the 400 of an
  undecodable parameter, the 500 after an exception. The handlers themselves observe
  nothing.
\<close>

theorem histogram_once:
  assumes "target req = Routed r"
  shows "app s req =
           routes s req r @ [Observe (req_method req) (path req) (status s req) (finish req - start req)] \<and>
         list_all (\<lambda>a. \<not> is_Observe a) (routes s req r) \<and>
         Send (status s req) (reply s req) \<in> set (routes s req r) \<and>
         httpRequestDurationMicroseconds (serve s req) =
           (httpRequestDurationMicroseconds s)
             ((req_method req, path req, status s req) :=
                httpRequestDurationMicroseconds s (req_method req, path req, status s req) @
                  [finish req - start req]) \<and>
         sample_count (serve s req) (req_method req, path req, status s req) =
           sample_count s (req_method req, path req, status s req) + 1 \<and>
         (\<forall>l. l \<noteq> (req_method req, path req, status s req) \<longrightarrow>
              sample_count (serve s req) l = sample_count s l)"
proof -
  note r = routed[OF assms, of s]
  have no: "\<forall>a\<in>set (routes s req r). \<not> is_Observe a"
    using routes_effects(1) by blast
  have h: "httpRequestDurationMicroseconds (perform (routes s req r) s) =
      httpRequestDurationMicroseconds s"
    by (rule histogram_frame[OF no])
  have "httpRequestDurationMicroseconds (serve s req) =
      (httpRequestDurationMicroseconds s)
        ((req_method req, path req, status s req) :=
           httpRequestDurationMicroseconds s (req_method req, path req, status s req) @
             [finish req - start req])"
    by (simp add: r(4) r(2) h)
  moreover have "Send (status s req) (reply s req) \<in> set (routes s req r)"
    by (simp only: r(2) r(3) routes_send_status)
  ultimately show ?thesis
    using no by (simp add: r(1) r(2) sample_count_def list_all_iff)
qed

theorem histogram_once_witness:
  "target (get_customer ''99'') = Routed (CustomersById (units ''99'')) \<and>
   status init (get_customer ''99'') = 404 \<and>
   sample_count (serve init (get_customer ''99'')) (''GET'', ''/customers/99'', 404) = 1 \<and>
   httpRequestDurationMicroseconds (serve init (get_customer ''99'')) (''GET'', ''/customers/99'', 404) = [3] \<and>
   sample_count (serve init (get_customer ''99'')) (''GET'', ''/customers/99'', 200) = 0 \<and>
   target get_undecodable = Routed Undecodable \<and>
   status init get_undecodable = 400 \<and>
   sample_count (serve init get_undecodable) (''GET'', ''/customers/%A0'', 400) = 1 \<and>
   sample_count (serve init get_undecodable) (''GET'', ''/customers/%A0'', 404) = 0 \<and>
   target ((post_customer (named ''A''))\<lparr>fault := Some (2, ''deep'')\<rparr>) = Routed CustomersCreate \<and>
   status init ((post_customer (named ''A''))\<lparr>fault := Some (2, ''deep'')\<rparr>) = 500 \<and>
   sample_count (serve init ((post_customer (named ''A''))\<lparr>fault := Some (2, ''deep'')\<rparr>))
     (''POST'', ''/customers'', 500) = 1 \<and>
   target ((get_customer ''1'')\<lparr>validators_match := True\<rparr>) = Routed (CustomersById (units ''1'')) \<and>
   status (serve init (post_customer (named ''A''))) ((get_customer ''1'')\<lparr>validators_match := True\<rparr>) = 304 \<and>
   sample_count (serve (serve init (post_customer (named ''A'')))
       ((get_customer ''1'')\<lparr>validators_match := True\<rparr>)) (''GET'', ''/customers/1'', 304) = 1 \<and>
   sample_count (serve (serve init (post_customer (named ''A'')))
       ((get_customer ''1'')\<lparr>validators_match := True\<rparr>)) (''GET'', ''/customers/1'', 200) = 0"
proof -
  let ?g = "get_customer ''99''"
  let ?f = "(post_customer (named ''A''))\<lparr>fault := Some (2, ''deep'')\<rparr>"
  let ?c = "(get_customer ''1'')\<lparr>validators_match := True\<rparr>"
  let ?s1 = "serve init (post_customer (named ''A''))"
  have z: "httpRequestDurationMicroseconds init = (\<lambda>l. [])" "customers init = []"
    by (simp_all add: init_def)
  have tg: "target ?g = Routed (CustomersById (units ''99''))" by simp
  have sg: "status init ?g = 404"
    by (simp add: routed(2)[OF tg] customer_by_id_unfailing find_by_id_def z
          res_json_def Let_def statusCode_def split: option.splits)
  have tu: "target get_undecodable = Routed Undecodable"
    and pu: "path get_undecodable = ''/customers/%A0''" "req_method get_undecodable = ''GET''"
      "finish get_undecodable - start get_undecodable = 3"
    by (simp_all add: get_undecodable_def)
  have su: "status init get_undecodable = 400"
    by (simp add: routed(2)[OF tu] statusCode_def)
  have tf: "target ?f = Routed CustomersCreate"
    and pf: "path ?f = ''/customers''" "req_method ?f = ''POST''"
    by (simp_all add: post_customer_def)
  have sf: "status init ?f = 500"
    by (simp add: routed(2)[OF tf] post_customers_def attempt_def Let_def statusCode_def)
  have tc: "target ?c = Routed (CustomersById (units ''1''))"
    and pc: "path ?c = ''/customers/1''" "req_method ?c = ''GET''"
    by simp_all
  have s1: "customers ?s1 = [new_record 0 (named ''A'') 1001]"
    by (simp add: created(1)[OF _ unfailing_201] z)
  have h1: "httpRequestDurationMicroseconds ?s1 (''GET'', ''/customers/1'', q) = []" for q
    using histogram_once[of "post_customer (named ''A'')" CustomersCreate init]
    by (simp add: z post_customer_def)
  have p1: "parseInt (units ''1'') = Some (JNum 1)"
    by (simp add: parse_defs)
  have i1: "new_record 0 (named ''A'') 1001 ''id'' = Some (JNum 1)"
    by (simp add: new_record_apply named_def)
  have "find_by_id (customers ?s1) (units ''1'') = Some (new_record 0 (named ''A'') 1001)"
    by (simp add: find_by_id_def p1 s1 i1)
  then have sc: "status ?s1 ?c = 304"
    by (simp add: routed(2)[OF tc] get_customer_by_id_def res_json_def Let_def statusCode_def)
  from histogram_once[OF tg, of init] histogram_once[OF tu, of init] histogram_once[OF tf, of init]
    histogram_once[OF tc, of ?s1] tg sg tu su tf sf tc sc
  show ?thesis
    by (simp add: sample_count_def z pu pf pc h1)
qed

section \<open>Lookups by id\<close>




section \<open>Operation counters\<close>

text \<open>
  Claim C5: a successful \<^verbatim>\<open>POST /customers\<close> request, one answered 201 (as every request
  is in whose handler nothing throws), adds exactly 1 to \<^verbatim>\<open>customer_operations_total\<close>
  under \<^verbatim>\<open>operation="create"\<close>; the counter's other labels (\<^verbatim>\<open>get_all\<close>,
  \<^verbatim>\<open>get_by_id\<close>) and every label of \<^verbatim>\<open>product_operations_total\<close> keep their values.
\<close>

theorem create_counts_once:
  assumes "target req = Routed CustomersCreate"
  shows "(fault req = None \<longrightarrow> status s req = 201) \<and>
         (status s req = 201 \<longrightarrow>
            customerOperationsCounter (serve s req) =
              (customerOperationsCounter s)(''create'' := customerOperationsCounter s ''create'' + 1) \<and>
            customerOperationsCounter (serve s req) ''get_all'' = customerOperationsCounter s ''get_all'' \<and>
            customerOperationsCounter (serve s req) ''get_by_id'' = customerOperationsCounter s ''get_by_id'' \<and>
            productOperationsCounter (serve s req) = productOperationsCounter s)"
proof -
  have "\<forall>a\<in>set (routes s req CustomersCreate). customer_side a"
    using routes_effects(4)[of _ s req CustomersCreate] by simp
  from customer_side_frame[OF this, of s]
  have p: "productOperationsCounter (serve s req) = productOperationsCounter s"
    by (simp add: serve_stores[OF assms])
  show ?thesis
    by (simp add: unfailing_201 assms created(3)[OF assms] p)
qed

theorem create_counts_once_witness:
  "target (post_customer (named ''A'')) = Routed CustomersCreate \<and>
   fault (post_customer (named ''A'')) = None \<and>
   status init (post_customer (named ''A'')) = 201 \<and>
   customerOperationsCounter (serve init (post_customer (named ''A''))) ''create'' = 1 \<and>
   customerOperationsCounter (serve init (post_customer (named ''A''))) ''get_all'' = 0 \<and>
   productOperationsCounter (serve init (post_customer (named ''A''))) ''create'' = 0"
proof -
  have a: "target (post_customer (named ''A'')) = Routed CustomersCreate"
    and b: "fault (post_customer (named ''A'')) = None"
    by simp_all
  have z: "customerOperationsCounter init = (\<lambda>l. 0)" "productOperationsCounter init = (\<lambda>l. 0)"
    by (simp_all add: init_def)
  from create_counts_once[OF a, of init] a b show ?thesis
    by (simp add: z)
qed

section \<open>The error counter\<close>




section \<open>Reading back a created record\<close>

text \<open>
  Claim C7, as stated: after a \<^verbatim>\<open>POST /customers\<close> that returned \<^verbatim>\<open>id\<close> k, a
  \<^verbatim>\<open>GET /customers/k\<close> returns exactly that record. It fails when the \<^verbatim>\<open>id\<close> is already
  in the store, because the lookup returns the first record with that \<^verbatim>\<open>id\<close>: after a POST
  of \<^verbatim>\<open>{"name": "A"}\<close> (\<^verbatim>\<open>id\<close> 1) and a POST of \<^verbatim>\<open>{"id": 1, "name": "B"}\<close>, which
  returns \<^verbatim>\<open>id\<close> 1, \<^verbatim>\<open>GET /customers/1\<close> returns the record named A.
\<close>

theorem created_record_is_returned_counterexample:
  "status (serve init (post_customer (named ''A'')))
     (post_customer (JObj [(''id'', JNum 1), (''name'', JStr ''B'')])) = 201 \<and>
   returned_id (reply (serve init (post_customer (named ''A'')))
     (post_customer (JObj [(''id'', JNum 1), (''name'', JStr ''B'')]))) = Some (JNum 1) \<and>
   status (serve (serve init (post_customer (named ''A'')))
     (post_customer (JObj [(''id'', JNum 1), (''name'', JStr ''B'')]))) (get_customer ''1'') = 200 \<and>
   reply (serve (serve init (post_customer (named ''A'')))
     (post_customer (JObj [(''id'', JNum 1), (''name'', JStr ''B'')]))) (get_customer ''1'') =
     reply init (post_customer (named ''A'')) \<and>
   reply (serve (serve init (post_customer (named ''A'')))
     (post_customer (JObj [(''id'', JNum 1), (''name'', JStr ''B'')]))) (get_customer ''1'') \<noteq>
     reply (serve init (post_customer (named ''A'')))
       (post_customer (JObj [(''id'', JNum 1), (''name'', JStr ''B'')]))"
proof -
  let ?a = "post_customer (named ''A'')"
  let ?b = "post_customer (JObj [(''id'', JNum 1), (''name'', JStr ''B'')])"
  let ?ra = "new_record 0 (named ''A'') 1001"
  let ?rb = "new_record (Suc 0) (JObj [(''id'', JNum 1), (''name'', JStr ''B'')]) 1001"
  have e: "customers init = []"
    by (simp add: init_def)
  have sa: "customers (serve init ?a) = [?ra]" and ra: "reply init ?a = Json ?ra"
    by (simp_all add: created(1,2)[OF _ unfailing_201] e)
  have stb: "status (serve init ?a) ?b = 201"
    by (simp add: unfailing_201)
  have sb: "customers (serve (serve init ?a) ?b) = [?ra, ?rb]"
    and rb: "reply (serve init ?a) ?b = Json ?rb"
    by (simp_all add: created(1,2)[OF _ stb] sa)
  have p1: "parseInt (units ''1'') = Some (JNum 1)"
    by (simp add: parse_defs)
  have ida: "?ra ''id'' = Some (JNum 1)" and idb: "?rb ''id'' = Some (JNum 1)"
    by (simp_all add: new_record_apply named_def)
  have found: "find_by_id (customers (serve (serve init ?a) ?b)) (units ''1'') = Some ?ra"
    by (simp add: find_by_id_def p1 sb ida)
  have stg: "status (serve (serve init ?a) ?b) (get_customer ''1'') = 200"
    by (simp add: customer_by_id_status(1)[of _ "units ''1''"] found)
  have rg: "reply (serve (serve init ?a) ?b) (get_customer ''1'') = Json ?ra"
    by (simp add: customer_by_id_status(2)[of _ "units ''1''", OF _ _ found])
  have "?ra ''name'' \<noteq> ?rb ''name''"
    by (simp add: new_record_apply named_def)
  then have ne: "?ra \<noteq> ?rb" by metis
  show ?thesis
    by (simp add: stb rb returned_id_def idb stg rg ra ne)
qed

text \<open>
  Claim C7, amended: for every record created by a \<^verbatim>\<open>POST /customers\<close> that returns the
  integer \<^verbatim>\<open>id\<close> k, provided no record stored before it has the \<^verbatim>\<open>id\<close> k (as is the case
  when no request body brings an \<^verbatim>\<open>id\<close> key), a \<^verbatim>\<open>GET /customers/k\<close> after any further
  requests, when it is unconditional and nothing throws, is answered 200 with exactly that
  record: the client-supplied fields unchanged (but for a client-supplied \<^verbatim>\<open>createdAt\<close>),
  the server's \<^verbatim>\<open>createdAt\<close>, and the server-assigned \<^verbatim>\<open>id\<close> when the body brings none.
  A conditional GET whose validators match is answered 304 with no body instead.
\<close>

theorem created_record_is_returned:
  assumes post: "target req = Routed CustomersCreate"
    and k: "returned_id (reply s req) = Some (JNum (of_int k))"
    and number: "exact k"
    and fresh: "list_all (\<lambda>c. c ''id'' \<noteq> Some (JNum (of_int k))) (customers s)"
    and get: "target get = Routed (CustomersById (units (decimal_int k)))"
    and plain: "req_method get = ''GET''" "fault get = None"
  shows "status s req = 201 \<and>
         (\<not> validators_match get \<longrightarrow>
            status (run (serve s req) later) get = 200 \<and>
            reply (run (serve s req) later) get = reply s req) \<and>
         (validators_match get \<longrightarrow>
            status (run (serve s req) later) get = 304 \<and>
            reply (run (serve s req) later) get = No_body) \<and>
         reply s req = Json (new_record (length (customers s)) (body req) (clock req)) \<and>
         new_record (length (customers s)) (body req) (clock req) ''createdAt'' = Some (JDate (clock req)) \<and>
         (\<forall>key v. key \<noteq> ''createdAt'' \<and> map_of (rev (spread (body req))) key = Some v \<longrightarrow>
            new_record (length (customers s)) (body req) (clock req) key = Some v) \<and>
         (\<not> has_id_key (body req) \<longrightarrow> k = int (length (customers s)) + 1)"
proof -
  let ?c = "new_record (length (customers s)) (body req) (clock req)"
  have st: "status s req = 201"
  proof -
    from post_customers_forms[of s req] k
    have "post_customers s req = [PushCustomer ?c, IncCustomerOp ''create'', Send 201 (Json ?c)]"
      by (auto simp: routed(3)[OF post] sent_def returned_id_def error_body_def)
    then show ?thesis
      by (simp add: routed(2)[OF post] statusCode_def)
  qed
  note step = created(1,2)[OF post st]
  from k have cid: "?c ''id'' = Some (JNum (of_int k))"
    by (simp add: step returned_id_def)
  obtain ext where "customers (run (serve s req) later) = customers (serve s req) @ ext"
    using run_extends by blast
  then have store: "customers (run (serve s req) later) = customers s @ ?c # ext"
    by (simp add: step)
  from fresh have "\<forall>c\<in>set (customers s). \<not> c ''id'' = Some (JNum (of_int k))"
    by (simp add: list_all_iff)
  from find_first[of "customers s" "\<lambda>c. c ''id'' = Some (JNum (of_int k))" ?c ext, OF this cid]
  have found: "find_by_id (customers (run (serve s req) later)) (units (decimal_int k)) = Some ?c"
    using parseInt_decimal_int[OF number, of "[]"]
    by (simp add: find_by_id_def store stops_def)
  note g = customer_by_id_status[OF get plain(2), of "run (serve s req) later"]
  have "\<not> validators_match get \<longrightarrow>
          status (run (serve s req) later) get = 200 \<and>
          reply (run (serve s req) later) get = reply s req"
    by (simp add: g(1) g(2)[OF found] found plain(1) step)
  moreover have "validators_match get \<longrightarrow>
          status (run (serve s req) later) get = 304 \<and>
          reply (run (serve s req) later) get = No_body"
    by (simp add: g(1) g(2)[OF found] found)
  moreover have "?c ''createdAt'' = Some (JDate (clock req))"
    by (simp add: new_record_createdAt)
  moreover have "\<forall>key v. key \<noteq> ''createdAt'' \<and> map_of (rev (spread (body req))) key = Some v \<longrightarrow>
      ?c key = Some v"
    by (simp add: new_record_apply)
  moreover have "\<not> has_id_key (body req) \<longrightarrow> k = int (length (customers s)) + 1"
  proof
    assume "\<not> has_id_key (body req)"
    with cid have "(of_int k :: rat) = of_int (int (length (customers s)) + 1)"
      by (simp add: new_record_id_server)
    then show "k = int (length (customers s)) + 1"
      by (simp only: of_int_eq_iff)
  qed
  ultimately show ?thesis by (simp add: step st)
qed

theorem created_record_is_returned_witness:
  "target (post_customer (named ''A'')) = Routed CustomersCreate \<and>
   returned_id (reply init (post_customer (named ''A''))) = Some (JNum (of_int 1)) \<and>
   exact 1 \<and>
   list_all (\<lambda>c. c ''id'' \<noteq> Some (JNum (of_int 1))) (customers init) \<and>
   target (get_customer (decimal_int 1)) = Routed (CustomersById (units (decimal_int 1))) \<and>
   req_method (get_customer (decimal_int 1)) = ''GET'' \<and>
   fault (get_customer (decimal_int 1)) = None \<and>
   \<not> validators_match (get_customer (decimal_int 1)) \<and>
   decimal_int 1 = ''1'' \<and>
   status (run (serve init (post_customer (named ''A''))) [post_customer (named ''B'')])
     (get_customer (decimal_int 1)) = 200 \<and>
   reply (run (serve init (post_customer (named ''A''))) [post_customer (named ''B'')])
     (get_customer (decimal_int 1)) = reply init (post_customer (named ''A'')) \<and>
   new_record (length (customers init)) (body (post_customer (named ''A'')))
     (clock (post_customer (named ''A''))) ''name'' = Some (JStr ''A'')"
proof -
  let ?a = "post_customer (named ''A'')"
  let ?g = "get_customer (decimal_int 1)"
  have e: "customers init = []"
    by (simp add: init_def)
  have a: "target ?a = Routed CustomersCreate"
    by simp
  have ra: "reply init ?a = Json (new_record 0 (named ''A'') 1001)"
    by (simp add: created(2)[OF a unfailing_201] e)
  have i: "new_record 0 (named ''A'') 1001 ''id'' = Some (JNum 1)"
    by (simp add: new_record_apply named_def)
  have b: "returned_id (reply init ?a) = Some (JNum (of_int 1))"
    by (simp add: ra returned_id_def i)
  have x: "exact 1"
    by (simp add: exact_small)
  have c: "list_all (\<lambda>c. c ''id'' \<noteq> Some (JNum (of_int 1))) (customers init)"
    by (simp add: e)
  have d: "target ?g = Routed (CustomersById (units (decimal_int 1)))"
    and m: "req_method ?g = ''GET''" and u: "fault ?g = None" and v: "\<not> validators_match ?g"
    by simp_all
  have n: "decimal_int 1 = ''1''"
    by code_simp
  have f: "new_record (length (customers init)) (body ?a) (clock ?a) ''name'' = Some (JStr ''A'')"
    by (simp add: new_record_apply named_def)
  from created_record_is_returned[OF a b x c d m u, of "[post_customer (named ''B'')]"]
    a b x c d m u v n f
  show ?thesis by blast
qed

section \<open>The fields the server assigns\<close>

text \<open>
  Claim C8: the record that a \<^verbatim>\<open>POST /customers\<close> (or \<^verbatim>\<open>POST /products\<close>) request stores,
  and returns when it is answered 201 (as it is when nothing throws), always has the
  server's insertion time as \<^verbatim>\<open>createdAt\<close>, whatever \<^verbatim>\<open>createdAt\<close> the body brings,
  whereas an \<^verbatim>\<open>id\<close> key of the body replaces the server-assigned \<^verbatim>\<open>id\<close> (the store's
  length plus 1), which is kept only when the body brings none: the body is spread after
  \<^verbatim>\<open>id\<close> and before \<^verbatim>\<open>createdAt\<close>.
\<close>

theorem created_record_fields:
  "(target req = Routed CustomersCreate \<longrightarrow>
      (let c = new_record (length (customers s)) (body req) (clock req)
       in (fault req = None \<longrightarrow> status s req = 201) \<and>
          (status s req = 201 \<longrightarrow> customers (serve s req) = customers s @ [c] \<and> reply s req = Json c) \<and>
          (customers (serve s req) = customers s \<or> customers (serve s req) = customers s @ [c]) \<and>
          c ''createdAt'' = Some (JDate (clock req)) \<and>
          (\<forall>v. map_of (rev (spread (body req))) ''id'' = Some v \<longrightarrow> c ''id'' = Some v) \<and>
          (\<not> has_id_key (body req) \<longrightarrow> c ''id'' = Some (JNum (of_nat (length (customers s)) + 1))))) \<and>
   (target req = Routed ProductsCreate \<longrightarrow>
      (let c = new_record (length (products s)) (body req) (clock req)
       in (fault req = None \<longrightarrow> status s req = 201) \<and>
          (status s req = 201 \<longrightarrow> products (serve s req) = products s @ [c] \<and> reply s req = Json c) \<and>
          (products (serve s req) = products s \<or> products (serve s req) = products s @ [c]) \<and>
          c ''createdAt'' = Some (JDate (clock req)) \<and>
          (\<forall>v. map_of (rev (spread (body req))) ''id'' = Some v \<longrightarrow> c ''id'' = Some v) \<and>
          (\<not> has_id_key (body req) \<longrightarrow> c ''id'' = Some (JNum (of_nat (length (products s)) + 1)))))"
proof -
  have f: "new_record len (body req) (clock req) ''createdAt'' = Some (JDate (clock req)) \<and>
      (\<forall>v. map_of (rev (spread (body req))) ''id'' = Some v \<longrightarrow>
           new_record len (body req) (clock req) ''id'' = Some v) \<and>
      (\<not> has_id_key (body req) \<longrightarrow>
           new_record len (body req) (clock req) ''id'' = Some (JNum (of_nat len + 1)))" for len
    by (simp add: new_record_id_server) (simp add: new_record_apply)
  have c: "target req = Routed CustomersCreate \<longrightarrow>
      (fault req = None \<longrightarrow> status s req = 201) \<and>
      (status s req = 201 \<longrightarrow>
         customers (serve s req) = customers s @ [new_record (length (customers s)) (body req) (clock req)] \<and>
         reply s req = Json (new_record (length (customers s)) (body req) (clock req))) \<and>
      (customers (serve s req) = customers s \<or>
       customers (serve s req) = customers s @ [new_record (length (customers s)) (body req) (clock req)])"
    using post_customers_store[of req s] by (simp add: unfailing_201 created(1,2))
  have p: "target req = Routed ProductsCreate \<longrightarrow>
      (fault req = None \<longrightarrow> status s req = 201) \<and>
      (status s req = 201 \<longrightarrow>
         products (serve s req) = products s @ [new_record (length (products s)) (body req) (clock req)] \<and>
         reply s req = Json (new_record (length (products s)) (body req) (clock req))) \<and>
      (products (serve s req) = products s \<or>
       products (serve s req) = products s @ [new_record (length (products s)) (body req) (clock req)])"
    using post_products_store[of req s] by (simp add: unfailing_201 created_product)
  from c p f[of "length (customers s)"] f[of "length (products s)"] show ?thesis
    unfolding Let_def by blast
qed

theorem created_record_fields_witness:
  "target (post_customer (JObj [(''id'', JNum 7), (''createdAt'', JStr ''never'')])) =
     Routed CustomersCreate \<and>
   fault (post_customer (JObj [(''id'', JNum 7), (''createdAt'', JStr ''never'')])) = None \<and>
   map_of (rev (spread (JObj [(''id'', JNum 7), (''createdAt'', JStr ''never'')]))) ''id'' =
     Some (JNum 7) \<and>
   new_record 0 (JObj [(''id'', JNum 7), (''createdAt'', JStr ''never'')]) 1001 ''id'' =
     Some (JNum 7) \<and>
   new_record 0 (JObj [(''id'', JNum 7), (''createdAt'', JStr ''never'')]) 1001 ''createdAt'' =
     Some (JDate 1001) \<and>
   status init (post_customer (JObj [(''id'', JNum 7), (''createdAt'', JStr ''never'')])) = 201 \<and>
   reply init (post_customer (JObj [(''id'', JNum 7), (''createdAt'', JStr ''never'')])) =
     Json (new_record 0 (JObj [(''id'', JNum 7), (''createdAt'', JStr ''never'')]) 1001)"
proof -
  let ?b = "JObj [(''id'', JNum 7), (''createdAt'', JStr ''never'')]"
  have e: "customers init = []"
    by (simp add: init_def)
  have a: "target (post_customer ?b) = Routed CustomersCreate"
    and u: "fault (post_customer ?b) = None"
    by simp_all
  have b: "map_of (rev (spread ?b)) ''id'' = Some (JNum 7)"
    by simp
  from created_record_fields[of "post_customer ?b" init] a u b show ?thesis
    by (simp add: e Let_def)
qed

section \<open>What a lookup miss changes\<close>

text \<open>
  Claim C9, as stated: a \<^verbatim>\<open>GET /customers/:id\<close> or \<^verbatim>\<open>GET /products/:id\<close> answered 404
  leaves the stores and the operation counters unchanged, and the only metric it mutates
  is \<^verbatim>\<open>api_error_total\<close>. The last part fails: the request also passes the timing
  middleware, which observes its duration in \<^verbatim>\<open>http_request_duration_ms\<close> once the 404
  is sent.
\<close>

theorem miss_changes_counterexample:
  "status init (get_customer ''99'') = 404 \<and>
   httpRequestDurationMicroseconds init (''GET'', ''/customers/99'', 404) = [] \<and>
   httpRequestDurationMicroseconds (serve init (get_customer ''99'')) (''GET'', ''/customers/99'', 404) = [3] \<and>
   serve init (get_customer ''99'') \<noteq>
     init\<lparr>errorCounter := errorCounter (serve init (get_customer ''99''))\<rparr>"
proof -
  let ?g = "get_customer ''99''"
  have t: "target ?g = Routed (CustomersById (units ''99''))" by simp
  have e: "customers init = []" by (simp add: init_def)
  have st: "status init ?g = 404"
    by (simp add: customer_by_id_status(1)[OF t] find_by_id_def e split: option.splits)
  have h0: "httpRequestDurationMicroseconds init (''GET'', ''/customers/99'', 404) = []"
    by (simp add: init_def)
  have "\<forall>a\<in>set (routes init ?g (CustomersById (units ''99''))). \<not> is_Observe a"
    using routes_effects(1) by blast
  from histogram_frame[OF this, of init]
  have h1: "httpRequestDurationMicroseconds (serve init ?g) (''GET'', ''/customers/99'', 404) = [3]"
    using st by (simp add: routed(4)[OF t] routed(2)[OF t] h0)
  have "httpRequestDurationMicroseconds (init\<lparr>errorCounter := errorCounter (serve init ?g)\<rparr>)
          (''GET'', ''/customers/99'', 404) = []"
    by (simp add: h0)
  with h1 have "serve init ?g \<noteq> init\<lparr>errorCounter := errorCounter (serve init ?g)\<rparr>"
    by (metis list.distinct(1))
  with st h0 h1 show ?thesis by blast
qed

text \<open>
  Claim C9, amended: a \<^verbatim>\<open>GET /customers/:id\<close> or \<^verbatim>\<open>GET /products/:id\<close> answered 404
  leaves both stores and both operation counters unchanged. Of the instruments of
  \<^verbatim>\<open>server.js\<close> it changes two: the handler adds 1 to \<^verbatim>\<open>api_error_total\<close> under its
  route pattern and GET and touches nothing else, and the timing middleware then adds the
  one duration sample to \<^verbatim>\<open>http_request_duration_ms\<close> under (method, path, 404).
\<close>

theorem miss_changes_error_and_histogram:
  "(target req = Routed (CustomersById p) \<and> status s req = 404 \<longrightarrow>
      perform (routes s req (CustomersById p)) s =
        s\<lparr>errorCounter :=
            (errorCounter s)((''/customers/:id'', ''GET'') := errorCounter s (''/customers/:id'', ''GET'') + 1)\<rparr> \<and>
      serve s req =
        s\<lparr>errorCounter :=
            (errorCounter s)((''/customers/:id'', ''GET'') := errorCounter s (''/customers/:id'', ''GET'') + 1),
          httpRequestDurationMicroseconds :=
            (httpRequestDurationMicroseconds s)((req_method req, path req, 404) :=
               httpRequestDurationMicroseconds s (req_method req, path req, 404) @ [finish req - start req])\<rparr> \<and>
      customers (serve s req) = customers s \<and> products (serve s req) = products s \<and>
      customerOperationsCounter (serve s req) = customerOperationsCounter s \<and>
      productOperationsCounter (serve s req) = productOperationsCounter s) \<and>
   (target req = Routed (ProductsById p) \<and> status s req = 404 \<longrightarrow>
      perform (routes s req (ProductsById p)) s =
        s\<lparr>errorCounter :=
            (errorCounter s)((''/products/:id'', ''GET'') := errorCounter s (''/products/:id'', ''GET'') + 1)\<rparr> \<and>
      serve s req =
        s\<lparr>errorCounter :=
            (errorCounter s)((''/products/:id'', ''GET'') := errorCounter s (''/products/:id'', ''GET'') + 1),
          httpRequestDurationMicroseconds :=
            (httpRequestDurationMicroseconds s)((req_method req, path req, 404) :=
               httpRequestDurationMicroseconds s (req_method req, path req, 404) @ [finish req - start req])\<rparr> \<and>
      customers (serve s req) = customers s \<and> products (serve s req) = products s \<and>
      customerOperationsCounter (serve s req) = customerOperationsCounter s \<and>
      productOperationsCounter (serve s req) = productOperationsCounter s)"
proof (intro conjI impI)
  assume a: "target req = Routed (CustomersById p) \<and> status s req = 404"
  then have t: "target req = Routed (CustomersById p)" by simp
  from a have st: "statusCode (routes s req (CustomersById p)) = 404"
    by (simp add: routed(2)[OF t])
  then have "statusCode (get_customer_by_id s req p) = 404" by simp
  note f = customer_by_id_404[OF this]
  show p: "perform (routes s req (CustomersById p)) s =
        s\<lparr>errorCounter :=
            (errorCounter s)((''/customers/:id'', ''GET'') := errorCounter s (''/customers/:id'', ''GET'') + 1)\<rparr>"
    by (simp add: f res_json_def Let_def)
  show "serve s req =
        s\<lparr>errorCounter :=
            (errorCounter s)((''/customers/:id'', ''GET'') := errorCounter s (''/customers/:id'', ''GET'') + 1),
          httpRequestDurationMicroseconds :=
            (httpRequestDurationMicroseconds s)((req_method req, path req, 404) :=
               httpRequestDurationMicroseconds s (req_method req, path req, 404) @ [finish req - start req])\<rparr>"
    by (simp only: routed(4)[OF t] st p) simp
  show "customers (serve s req) = customers s" "products (serve s req) = products s"
    "customerOperationsCounter (serve s req) = customerOperationsCounter s"
    "productOperationsCounter (serve s req) = productOperationsCounter s"
    by (simp_all only: serve_stores[OF t] p) simp_all
next
  assume a: "target req = Routed (ProductsById p) \<and> status s req = 404"
  then have t: "target req = Routed (ProductsById p)" by simp
  from a have st: "statusCode (routes s req (ProductsById p)) = 404"
    by (simp add: routed(2)[OF t])
  then have "statusCode (get_product_by_id s req p) = 404" by simp
  note f = product_by_id_404[OF this]
  show p: "perform (routes s req (ProductsById p)) s =
        s\<lparr>errorCounter :=
            (errorCounter s)((''/products/:id'', ''GET'') := errorCounter s (''/products/:id'', ''GET'') + 1)\<rparr>"
    by (simp add: f res_json_def Let_def)
  show "serve s req =
        s\<lparr>errorCounter :=
            (errorCounter s)((''/products/:id'', ''GET'') := errorCounter s (''/products/:id'', ''GET'') + 1),
          httpRequestDurationMicroseconds :=
            (httpRequestDurationMicroseconds s)((req_method req, path req, 404) :=
               httpRequestDurationMicroseconds s (req_method req, path req, 404) @ [finish req - start req])\<rparr>"
    by (simp only: routed(4)[OF t] st p) simp
  show "customers (serve s req) = customers s" "products (serve s req) = products s"
    "customerOperationsCounter (serve s req) = customerOperationsCounter s"
    "productOperationsCounter (serve s req) = productOperationsCounter s"
    by (simp_all only: serve_stores[OF t] p) simp_all
qed

theorem miss_changes_error_and_histogram_witness:
  "target (get_customer ''99'') = Routed (CustomersById (units ''99'')) \<and>
   status init (get_customer ''99'') = 404 \<and>
   customers (serve init (get_customer ''99'')) = [] \<and>
   customerOperationsCounter (serve init (get_customer ''99'')) ''get_by_id'' = 0 \<and>
   errorCounter (serve init (get_customer ''99'')) (''/customers/:id'', ''GET'') = 1 \<and>
   httpRequestDurationMicroseconds (serve init (get_customer ''99'')) (''GET'', ''/customers/99'', 404) = [3]"
proof -
  let ?g = "get_customer ''99''"
  have a: "target ?g = Routed (CustomersById (units ''99''))"
    by simp
  have z: "customers init = []" "customerOperationsCounter init = (\<lambda>l. 0)"
    "errorCounter init = (\<lambda>l. 0)" "httpRequestDurationMicroseconds init = (\<lambda>l. [])"
    by (simp_all add: init_def)
  have st: "status init ?g = 404"
    by (simp add: customer_by_id_status(1)[OF a] find_by_id_def z split: option.splits)
  from miss_changes_error_and_histogram[of ?g "units ''99''" init] a st
  have "serve init ?g =
        init\<lparr>errorCounter :=
            (errorCounter init)((''/customers/:id'', ''GET'') := errorCounter init (''/customers/:id'', ''GET'') + 1),
          httpRequestDurationMicroseconds :=
            (httpRequestDurationMicroseconds init)((req_method ?g, path ?g, 404) :=
               httpRequestDurationMicroseconds init (req_method ?g, path ?g, 404) @ [finish ?g - start ?g])\<rparr>"
    by blast
  with a st show ?thesis
    by (simp add: z)
qed

section \<open>Customers and products do not touch each other\<close>

text \<open>
  Claim C10: every customer operation (\<^verbatim>\<open>GET /customers\<close>, \<^verbatim>\<open>POST /customers\<close>,
  \<^verbatim>\<open>GET /customers/:id\<close>) leaves the product store, \<^verbatim>\<open>product_operations_total\<close> and the
  error counts of the product routes unchanged, and every product operation leaves the
  customer store, \<^verbatim>\<open>customer_operations_total\<close> and the error counts of the customer
  routes unchanged.
\<close>

theorem resources_are_separate:
  "(customer_operation (target req) \<longrightarrow>
      products (serve s req) = products s \<and>
      productOperationsCounter (serve s req) = productOperationsCounter s \<and>
      errorCounter (serve s req) (''/products/:id'', ''GET'') = errorCounter s (''/products/:id'', ''GET'') \<and>
      errorCounter (serve s req) (''/products'', ''POST'') = errorCounter s (''/products'', ''POST'')) \<and>
   (product_operation (target req) \<longrightarrow>
      customers (serve s req) = customers s \<and>
      customerOperationsCounter (serve s req) = customerOperationsCounter s \<and>
      errorCounter (serve s req) (''/customers/:id'', ''GET'') = errorCounter s (''/customers/:id'', ''GET'') \<and>
      errorCounter (serve s req) (''/customers'', ''POST'') = errorCounter s (''/customers'', ''POST''))"
proof (cases "target req")
  case (Upstream st)
  then show ?thesis by simp
next
  case (Routed r)
  have c: "customer_operation (Routed r) \<Longrightarrow> \<forall>a\<in>set (routes s req r). customer_side a"
    using routes_effects(4) by blast
  have p: "product_operation (Routed r) \<Longrightarrow> \<forall>a\<in>set (routes s req r). product_side a"
    using routes_effects(5) by blast
  show ?thesis
    using customer_side_frame[OF c, of s] product_side_frame[OF p, of s]
    by (simp add: Routed serve_stores[OF Routed])
qed

theorem resources_are_separate_witness:
  "customer_operation (target (post_customer (named ''A''))) \<and>
   product_operation (target (post_product (named ''P''))) \<and>
   products (serve (serve init (post_product (named ''P''))) (post_customer (named ''A''))) =
     products (serve init (post_product (named ''P''))) \<and>
   productOperationsCounter (serve (serve init (post_product (named ''P''))) (post_customer (named ''A''))) =
     productOperationsCounter (serve init (post_product (named ''P''))) \<and>
   customers (serve (serve init (post_customer (named ''A''))) (post_product (named ''P''))) =
     customers (serve init (post_customer (named ''A''))) \<and>
   customerOperationsCounter (serve (serve init (post_customer (named ''A''))) (post_product (named ''P''))) =
     customerOperationsCounter (serve init (post_customer (named ''A'')))"
proof -
  have a: "customer_operation (target (post_customer (named ''A'')))"
    by simp
  have b: "product_operation (target (post_product (named ''P'')))"
    by simp
  from resources_are_separate[of "post_customer (named ''A'')" "serve init (post_product (named ''P''))"]
    resources_are_separate[of "post_product (named ''P'')" "serve init (post_customer (named ''A''))"]
    a b show ?thesis by blast
qed

end
